theory Spec2Isabelle
  imports Complex_Main "HOL-Library.Multiset" "HOL-Library.List_Lexorder" "HOL-Library.Product_Lexorder"
begin

section \<open>Values\<close>

text \<open>
  The two notebooks are Python over pandas objects, run cell after cell. A Python \<open>str\<close> is a
  sequence of Unicode code points, so it is a list of naturals here; the column names,
  which the notebooks only compare, are HOL strings.
\<close>

type_synonym pystr = "nat list"

definition pystr_of :: "string \<Rightarrow> pystr" where
  "pystr_of s = map of_char s"

text \<open>
  A cell of a dataframe. \<open>Null\<close> stands for every missing value of pandas (\<open>None\<close>,
  \<open>NaN\<close>, \<open>NaT\<close>). A float64 is idealised as an exact rational: rounding is outside
  this development. A timestamp is its number of milliseconds since the epoch.
\<close>

datatype cell = Null | IntV int | FloatV rat | StrV pystr | TimeV int

datatype dtype = Object | Int64 | Float64 | Datetime64

datatype error =
    FileNotFoundError
  | ValueError
  | KeyError string
  | AttributeError
  | TypeError
  | IndexingError
  | AnalysisException
  | Py4JJavaError
  | NameError

section \<open>The word-count notebook\<close>

text \<open>
  \<^verbatim>\<open>word_c = Counter(' '.join(df['text']).split()).most_common()\<close>

  \<open>str.split()\<close> with no argument splits at runs of whitespace and returns no empty
  token; these are the code points for which \<open>str.isspace\<close> holds.
\<close>

definition is_whitespace :: "nat \<Rightarrow> bool" where
  "is_whitespace c \<longleftrightarrow>
     (9 \<le> c \<and> c \<le> 13) \<or> (28 \<le> c \<and> c \<le> 32) \<or> c = 133 \<or> c = 160 \<or> c = 5760 \<or>
     (8192 \<le> c \<and> c \<le> 8202) \<or> c = 8232 \<or> c = 8233 \<or> c = 8239 \<or> c = 8287 \<or> c = 12288"

text \<open>\<open>split_from cur s\<close>: the token being read is \<open>cur\<close>, the text left is \<open>s\<close>.\<close>

fun split_from :: "pystr \<Rightarrow> pystr \<Rightarrow> pystr list" where
  "split_from cur [] = (if cur = [] then [] else [cur])"
| "split_from cur (c # cs) =
     (if is_whitespace c
      then (if cur = [] then split_from [] cs else cur # split_from [] cs)
      else split_from (cur @ [c]) cs)"

definition str_split :: "pystr \<Rightarrow> pystr list" where
  "str_split s = split_from [] s"



text \<open>
  A \<open>Counter\<close> is a dictionary, which keeps its keys in the order of their first
  insertion: an association list. Counting an element adds one to its entry, or appends
  a new entry.
\<close>

fun counter_add :: "('a \<times> nat) list \<Rightarrow> 'a \<Rightarrow> ('a \<times> nat) list" where
  "counter_add [] w = [(w, 1)]"
| "counter_add ((k, n) # kvs) w =
     (if k = w then (k, n + 1) # kvs else (k, n) # counter_add kvs w)"

definition Counter :: "'a list \<Rightarrow> ('a \<times> nat) list" where
  "Counter ws = foldl counter_add [] ws"

text \<open>
  \<open>most_common()\<close> is \<open>sorted(items, key=count, reverse=True)\<close>: a stable sort by
  decreasing count.
\<close>

definition most_common :: "('a \<times> nat) list \<Rightarrow> ('a \<times> nat) list" where
  "most_common kvs = sort_key (\<lambda>kv. - int (snd kv)) kvs"


section \<open>Errors as values\<close>

text \<open>
  A Python expression either has a value or raises. Nothing in the notebooks catches an
  exception, so a raise ends the run: \<open>and_then\<close> passes the first error on.
\<close>

definition and_then :: "error + 'a \<Rightarrow> ('a \<Rightarrow> error + 'b) \<Rightarrow> error + 'b" where
  "and_then m f = (case m of Inl e \<Rightarrow> Inl e | Inr x \<Rightarrow> f x)"

fun traverse :: "('a \<Rightarrow> error + 'b) \<Rightarrow> 'a list \<Rightarrow> error + 'b list" where
  "traverse f [] = Inr []"
| "traverse f (x # xs) =
     (case f x of
        Inl e \<Rightarrow> Inl e
      | Inr y \<Rightarrow> (case traverse f xs of Inl e \<Rightarrow> Inl e | Inr ys \<Rightarrow> Inr (y # ys)))"

section \<open>An order on cells\<close>

text \<open>
  pandas sorts the keys of a group-by. Values of one type are ordered as Python orders
  them; between types the order is by a fixed rank, numbers before strings.
\<close>

fun cell_rank :: "cell \<Rightarrow> nat \<times> rat \<times> pystr" where
  "cell_rank Null = (0, 0, [])"
| "cell_rank (IntV i) = (1, of_int i, [])"
| "cell_rank (FloatV q) = (2, q, [])"
| "cell_rank (TimeV t) = (3, of_int t, [])"
| "cell_rank (StrV s) = (4, 0, s)"

lemma cell_rank_inj: "cell_rank a = cell_rank b \<Longrightarrow> a = b"
  by (cases a; cases b) auto

instantiation cell :: linorder
begin

definition less_eq_cell :: "cell \<Rightarrow> cell \<Rightarrow> bool" where
  "less_eq_cell a b \<longleftrightarrow> cell_rank a \<le> cell_rank b"

definition less_cell :: "cell \<Rightarrow> cell \<Rightarrow> bool" where
  "less_cell a b \<longleftrightarrow> cell_rank a < cell_rank b"

instance
proof
  fix x y z :: cell
  show "(x < y) = (x \<le> y \<and> \<not> y \<le> x)"
    unfolding less_eq_cell_def less_cell_def by (rule less_le_not_le)
  show "x \<le> x"
    unfolding less_eq_cell_def by simp
  show "x \<le> y \<Longrightarrow> y \<le> z \<Longrightarrow> x \<le> z"
    unfolding less_eq_cell_def by (rule order_trans)
  show "x \<le> y \<Longrightarrow> y \<le> x \<Longrightarrow> x = y"
    unfolding less_eq_cell_def by (rule cell_rank_inj) (rule antisym)
  show "x \<le> y \<or> y \<le> x"
    unfolding less_eq_cell_def by (rule linear)
qed

end

section \<open>Dataframes and series\<close>

text \<open>
  A dataframe has named columns, each with a dtype, and rows, each with its index label.
  A row gives a cell for a column name. A series is one column: its dtype and its cells
  with their labels.
\<close>

type_synonym row = "string \<Rightarrow> cell"

record dataframe =
  columns :: "(string \<times> dtype) list"
  rows :: "(nat \<times> row) list"

record series =
  sdtype :: dtype
  items :: "(nat \<times> cell) list"

definition column_names :: "dataframe \<Rightarrow> string list" where
  "column_names df = map fst (columns df)"

text \<open>\<open>df[c]\<close> raises \<open>KeyError\<close> and \<open>df.c\<close> raises \<open>AttributeError\<close> when there is no column \<open>c\<close>.\<close>

definition getitem :: "dataframe \<Rightarrow> string \<Rightarrow> error + series" where
  "getitem df c =
     (case map_of (columns df) c of
        None \<Rightarrow> Inl (KeyError c)
      | Some t \<Rightarrow> Inr \<lparr>sdtype = t, items = map (\<lambda>(l, r). (l, r c)) (rows df)\<rparr>)"

definition getattr :: "dataframe \<Rightarrow> string \<Rightarrow> error + series" where
  "getattr df c =
     (case map_of (columns df) c of
        None \<Rightarrow> Inl AttributeError
      | Some t \<Rightarrow> Inr \<lparr>sdtype = t, items = map (\<lambda>(l, r). (l, r c)) (rows df)\<rparr>)"

text \<open>
  \<open>df[c] = s\<close> replaces the column \<open>c\<close> or appends it, in place. A series with the
  index of \<open>df\<close> is taken position by position; any other series is aligned on the
  index, and a label it lacks gets a missing value.
\<close>

definition set_dtype :: "string \<Rightarrow> dtype \<Rightarrow> (string \<times> dtype) list \<Rightarrow> (string \<times> dtype) list" where
  "set_dtype c t cols =
     (if c \<in> set (map fst cols) then map (\<lambda>(n, u). if n = c then (n, t) else (n, u)) cols
      else cols @ [(c, t)])"

definition setitem :: "dataframe \<Rightarrow> string \<Rightarrow> series \<Rightarrow> dataframe" where
  "setitem df c s =
     \<lparr>columns = set_dtype c (sdtype s) (columns df),
      rows =
        (if map fst (items s) = map fst (rows df)
         then map (\<lambda>((l, r), (k, v)). (l, r(c := v))) (zip (rows df) (items s))
         else map (\<lambda>(l, r). (l, r(c := (case map_of (items s) l of None \<Rightarrow> Null | Some v \<Rightarrow> v))))
                (rows df))\<rparr>"

subsection \<open>Casts\<close>

text \<open>
  \<open>astype(int)\<close> and \<open>astype(float)\<close> convert cell by cell and raise at the first cell
  that has no such value. How Python reads a number from a \<open>str\<close> (\<open>int(s)\<close>,
  \<open>float(s)\<close>) is a parameter. A float is cut towards zero; a missing value has no
  integer (pandas raises \<open>ValueError\<close> for \<open>NaN\<close> and \<open>TypeError\<close> for \<open>None\<close>; one
  \<open>Null\<close> stands for both here, with \<open>ValueError\<close>). The range of int64 is outside
  this development.
\<close>

fun cast_int :: "(pystr \<Rightarrow> int option) \<Rightarrow> cell \<Rightarrow> error + cell" where
  "cast_int p Null = Inl ValueError"
| "cast_int p (IntV i) = Inr (IntV i)"
| "cast_int p (FloatV q) = Inr (IntV (if 0 \<le> q then \<lfloor>q\<rfloor> else \<lceil>q\<rceil>))"
| "cast_int p (StrV s) = (case p s of None \<Rightarrow> Inl ValueError | Some i \<Rightarrow> Inr (IntV i))"
| "cast_int p (TimeV t) = Inr (IntV (t * 1000000))"

fun cast_float :: "(pystr \<Rightarrow> rat option) \<Rightarrow> cell \<Rightarrow> error + cell" where
  "cast_float p Null = Inr Null"
| "cast_float p (IntV i) = Inr (FloatV (of_int i))"
| "cast_float p (FloatV q) = Inr (FloatV q)"
| "cast_float p (StrV s) = (case p s of None \<Rightarrow> Inl ValueError | Some q \<Rightarrow> Inr (FloatV q))"
| "cast_float p (TimeV t) = Inl TypeError"

definition astype :: "(cell \<Rightarrow> error + cell) \<Rightarrow> dtype \<Rightarrow> series \<Rightarrow> error + series" where
  "astype cast t s =
     and_then (traverse (\<lambda>(l, c). and_then (cast c) (\<lambda>v. Inr (l, v))) (items s))
       (\<lambda>xs. Inr \<lparr>sdtype = t, items = xs\<rparr>)"

text \<open>
  \<open>pd.to_datetime(s, unit='ms')\<close>: a number is a count of milliseconds since the epoch
  (the part below a millisecond is dropped here), a \<open>str\<close> must read as a number, a
  missing value stays missing (\<open>NaT\<close>).
\<close>

fun cast_datetime_ms :: "(pystr \<Rightarrow> rat option) \<Rightarrow> cell \<Rightarrow> error + cell" where
  "cast_datetime_ms p Null = Inr Null"
| "cast_datetime_ms p (IntV i) = Inr (TimeV i)"
| "cast_datetime_ms p (FloatV q) = Inr (TimeV \<lfloor>q\<rfloor>)"
| "cast_datetime_ms p (StrV s) = (case p s of None \<Rightarrow> Inl ValueError | Some q \<Rightarrow> Inr (TimeV \<lfloor>q\<rfloor>))"
| "cast_datetime_ms p (TimeV t) = Inr (TimeV t)"

subsection \<open>String predicates and boolean indexing\<close>

fun starts_with :: "'a list \<Rightarrow> 'a list \<Rightarrow> bool" where
  "starts_with s [] = True"
| "starts_with [] (p # ps) = False"
| "starts_with (c # cs) (p # ps) = (c = p \<and> starts_with cs ps)"

fun contains :: "'a list \<Rightarrow> 'a list \<Rightarrow> bool" where
  "contains [] p = (p = [])"
| "contains (c # cs) p = (starts_with (c # cs) p \<or> contains cs p)"

text \<open>
  \<open>s.str.contains(pat)\<close> searches each cell with the regular expression \<open>pat\<close>. The
  \<open>.str\<close> accessor raises \<open>AttributeError\<close> on a series whose dtype is not object; a
  cell that is not a \<open>str\<close> gives a missing value, \<open>None\<close> here. The three patterns of
  the notebook are these predicates.
\<close>

definition str_contains :: "(pystr \<Rightarrow> bool) \<Rightarrow> series \<Rightarrow> error + (nat \<times> bool option) list" where
  "str_contains pat s =
     (if sdtype s = Object
      then Inr (map (\<lambda>(l, c). (l, case c of StrV v \<Rightarrow> Some (pat v) | _ \<Rightarrow> None)) (items s))
      else Inl AttributeError)"

definition pat_CICS :: "pystr \<Rightarrow> bool" where
  "pat_CICS s = contains s (pystr_of ''CICS'')"

text \<open>
  \<open>'^Y[1-5]95$|MAP'\<close>: the whole value is \<open>Y\<close>, a digit from 1 to 5, \<open>95\<close> (\<open>$\<close> also
  matches before a final newline), or the value contains \<open>MAP\<close>.
\<close>

definition pat_tran :: "pystr \<Rightarrow> bool" where
  "pat_tran s =
     ((\<exists>d \<in> set [49, 50, 51, 52, 53]. s = [89, d, 57, 53] \<or> s = [89, d, 57, 53, 10])
      \<or> contains s (pystr_of ''MAP''))"

definition pat_regions :: "pystr \<Rightarrow> bool" where
  "pat_regions s = (contains s (pystr_of ''CICS3AAB'') \<or> contains s (pystr_of ''CICS6AAA''))"

text \<open>\<open>mask == True\<close>: a missing value is not equal to \<open>True\<close>.\<close>

definition eq_True :: "(nat \<times> bool option) list \<Rightarrow> (nat \<times> bool option) list" where
  "eq_True m = map (\<lambda>(l, b). (l, Some (b = Some True))) m"

text \<open>
  \<open>df[mask]\<close> with a boolean series makes a new dataframe. \<open>ValueError\<close> when the
  mask holds a missing value. A mask with the index of \<open>df\<close> is used position by
  position. Any other mask is first aligned on the index of \<open>df\<close>: \<open>ValueError\<close>
  when it has a label twice, \<open>IndexingError\<close> when it lacks a label of \<open>df\<close>.
\<close>

definition bool_index :: "dataframe \<Rightarrow> (nat \<times> bool option) list \<Rightarrow> error + dataframe" where
  "bool_index df m =
     (if list_ex (\<lambda>(l, b). b = None) m then Inl ValueError
      else if map fst m = map fst (rows df)
      then Inr (df\<lparr>rows := map snd (filter (\<lambda>((l, b), x). b = Some True) (zip m (rows df)))\<rparr>)
      else if distinct (map fst m)
      then (if list_ex (\<lambda>(l, r). map_of m l = None) (rows df) then Inl IndexingError
            else Inr (df\<lparr>rows := filter (\<lambda>(l, r). map_of m l = Some (Some True)) (rows df)\<rparr>))
      else Inl ValueError)"

subsection \<open>Sums, groups and pivot tables\<close>

text \<open>
  \<open>sum()\<close> skips missing values. A cell that is no number has no sum with a float
  (\<open>TypeError\<close>).
\<close>

fun sum_cells :: "cell list \<Rightarrow> error + rat" where
  "sum_cells [] = Inr 0"
| "sum_cells (Null # cs) = sum_cells cs"
| "sum_cells (IntV i # cs) = and_then (sum_cells cs) (\<lambda>t. Inr (of_int i + t))"
| "sum_cells (FloatV q # cs) = and_then (sum_cells cs) (\<lambda>t. Inr (q + t))"
| "sum_cells (c # cs) = Inl TypeError"

definition series_sum :: "series \<Rightarrow> error + rat" where
  "series_sum s = sum_cells (map snd (items s))"

definition require_columns :: "dataframe \<Rightarrow> string list \<Rightarrow> error + unit" where
  "require_columns df cs =
     (case filter (\<lambda>c. map_of (columns df) c = None) cs of
        [] \<Rightarrow> Inr ()
      | c # _ \<Rightarrow> Inl (KeyError c))"

text \<open>
  A group-by leaves out the rows whose key has a missing value, and orders the groups
  by their keys. The key of a row is \<open>None\<close> when it is left out.
\<close>

definition key1 :: "string \<Rightarrow> row \<Rightarrow> cell option" where
  "key1 a r = (if r a = Null then None else Some (r a))"

definition key2 :: "string \<Rightarrow> string \<Rightarrow> row \<Rightarrow> (cell \<times> cell) option" where
  "key2 a b r = (if r a = Null \<or> r b = Null then None else Some (r a, r b))"

definition key4 :: "string \<Rightarrow> string \<Rightarrow> string \<Rightarrow> string \<Rightarrow> row \<Rightarrow> ((cell \<times> cell \<times> cell) \<times> cell) option" where
  "key4 a b c d r =
     (if r a = Null \<or> r b = Null \<or> r c = Null \<or> r d = Null then None
      else Some ((r a, r b, r c), r d))"

definition group_keys :: "(row \<Rightarrow> 'k::linorder option) \<Rightarrow> (nat \<times> row) list \<Rightarrow> 'k list" where
  "group_keys key rs = sort (remdups (List.map_filter (\<lambda>(l, r). key r) rs))"

definition group_rows :: "(row \<Rightarrow> 'k option) \<Rightarrow> 'k \<Rightarrow> (nat \<times> row) list \<Rightarrow> row list" where
  "group_rows key k rs = map snd (filter (\<lambda>(l, r). key r = Some k) rs)"

definition groupby_sum :: "(row \<Rightarrow> 'k::linorder option) \<Rightarrow> string \<Rightarrow> dataframe \<Rightarrow> error + ('k \<times> rat) list" where
  "groupby_sum key v df =
     traverse (\<lambda>k. and_then (sum_cells (map (\<lambda>r. r v) (group_rows key k (rows df)))) (\<lambda>t. Inr (k, t)))
       (group_keys key (rows df))"

text \<open>\<open>value_counts()\<close>: the count of each value that is not missing, largest first.\<close>

definition value_counts :: "series \<Rightarrow> (cell \<times> nat) list" where
  "value_counts s = most_common (Counter (filter (\<lambda>c. c \<noteq> Null) (map snd (items s))))"

text \<open>
  \<open>unstack()\<close> lays a series with two-level keys out as a table: a row for each first
  key, a column for each second key, a missing value where the pair has no entry.
\<close>

definition unstack :: "((cell \<times> cell) \<times> 'v) list \<Rightarrow> cell list \<times> (cell \<times> 'v option list) list" where
  "unstack kvs =
     (let cs = sort (remdups (map (\<lambda>((a, b), v). b) kvs));
          ix = sort (remdups (map (\<lambda>((a, b), v). a) kvs))
      in (cs, map (\<lambda>a. (a, map (\<lambda>b. map_of kvs (a, b)) cs)) ix))"

text \<open>
  A pivot table with a three-level index: its column labels, and for each index key the
  values of the row, one for each column.
\<close>

record 'v pivot =
  pcolumns :: "cell list"
  prows :: "((cell \<times> cell \<times> cell) \<times> 'v list) list"

text \<open>
  \<open>pivot_table(index=[a, b, c], columns=[d], aggfunc=len)\<close>: the number of rows of each
  (index key, column) group; a pair with no row has a missing value.
\<close>

definition pivot_len :: "(row \<Rightarrow> ((cell \<times> cell \<times> cell) \<times> cell) option) \<Rightarrow> (nat \<times> row) list \<Rightarrow> nat option pivot" where
  "pivot_len key rs =
     (let ks = List.map_filter (\<lambda>(l, r). key r) rs;
          cs = sort (remdups (map snd ks));
          ix = sort (remdups (map fst ks))
      in \<lparr>pcolumns = cs,
          prows = map (\<lambda>i. (i, map (\<lambda>c. let n = count_list ks (i, c) in if n = 0 then None else Some n) cs)) ix\<rparr>)"

definition fillna0 :: "nat option pivot \<Rightarrow> rat pivot" where
  "fillna0 pv =
     \<lparr>pcolumns = pcolumns pv,
      prows = map (\<lambda>(i, vs). (i, map (\<lambda>v. case v of None \<Rightarrow> 0 | Some n \<Rightarrow> of_nat n) vs)) (prows pv)\<rparr>"

subsection \<open>The transaction rate loop\<close>

text \<open>
  \<^verbatim>\<open>
  sys_id = trans_rate_per_region.index.levels[0]
  cics_regions = trans_rate_per_region.index.get_level_values(1)
  num_days_cics_regions = dict()
  for j in range(len(sys_id)):
      for i in range(len(cics_regions)):
          num_days_cics_regions[(sys_id[j],cics_regions[i])] =
              num_days_cics_regions.get((sys_id[j],cics_regions[i]), 0) + 1
  start_ind = 0
  cics_trans_df = pd.DataFrame(index=list(trans_rate_per_region.columns),
                               columns=list(num_days_cics_regions.keys()))
  for cics_region_per_sys in num_days_cics_regions:
      end_ind = start_ind + num_days_cics_regions[cics_region_per_sys]
      cics_rate = trans_rate_per_region.iloc[start_ind:end_ind,:].apply(lambda x : np.mean(x))
      cics_trans_df[cics_region_per_sys] = cics_rate
      start_ind = end_ind
  \<close>
  \<open>levels[0]\<close> holds the system ids of the index, each once, in order;
  \<open>get_level_values(1)\<close> holds the region of every row of the table. The dictionary
  keeps its keys in the order of their first insertion. The mean of no value is a
  missing value (\<open>None\<close>).
\<close>

definition mean :: "rat list \<Rightarrow> rat option" where
  "mean xs = (if xs = [] then None else Some (sum_list xs / of_nat (length xs)))"

text \<open>The means of the columns of a table of \<open>n\<close> columns, given by its rows.\<close>

definition column_means :: "nat \<Rightarrow> rat list list \<Rightarrow> rat option list" where
  "column_means n tbl = map (\<lambda>j. mean (map (\<lambda>vs. vs ! j) tbl)) [0..<n]"

definition iloc_rows :: "nat \<Rightarrow> nat \<Rightarrow> 'a list \<Rightarrow> 'a list" where
  "iloc_rows a b xs = take (b - a) (drop a xs)"

definition num_days_cics_regions :: "rat pivot \<Rightarrow> ((cell \<times> cell) \<times> nat) list" where
  "num_days_cics_regions pv =
     (let sys_id = sort (remdups (map (\<lambda>((s, r, d), vs). s) (prows pv)));
          cics_regions = map (\<lambda>((s, r, d), vs). r) (prows pv)
      in foldl counter_add [] (concat (map (\<lambda>s. map (\<lambda>r. (s, r)) cics_regions) sys_id)))"

fun rate_loop :: "nat \<Rightarrow> rat list list \<Rightarrow> nat \<Rightarrow> ('k \<times> nat) list \<Rightarrow> ('k \<times> rat option list) list" where
  "rate_loop ncols tbl start_ind [] = []"
| "rate_loop ncols tbl start_ind ((cics_region_per_sys, n) # rest) =
     (let end_ind = start_ind + n;
          cics_rate = column_means ncols (iloc_rows start_ind end_ind tbl)
      in (cics_region_per_sys, cics_rate) # rate_loop ncols tbl end_ind rest)"

definition cics_trans_loop :: "rat pivot \<Rightarrow> ((cell \<times> cell) \<times> rat option list) list" where
  "cics_trans_loop pv =
     rate_loop (length (pcolumns pv)) (map snd (prows pv)) 0 (num_days_cics_regions pv)"


section \<open>The engine: tables read through Spark\<close>

text \<open>
  A Spark dataframe: its columns, each with the dtype that \<open>toPandas()\<close> gives it, and
  its rows. The join of two aliased dataframes keeps the two sides apart; a column name
  that both sides have, or none, cannot be selected (\<open>AnalysisException\<close>).
\<close>

record spark_df =
  scolumns :: "(string \<times> dtype) list"
  srows :: "row list"

record joined_df =
  lcolumns :: "(string \<times> dtype) list"
  rcolumns :: "(string \<times> dtype) list"
  pairs :: "(row \<times> row) list"

text \<open>An inner join on \<open>a.ka == b.kb\<close>; a missing key equals nothing.\<close>

definition join_inner :: "spark_df \<Rightarrow> string \<Rightarrow> spark_df \<Rightarrow> string \<Rightarrow> error + joined_df" where
  "join_inner a ka b kb =
     (if ka \<in> set (map fst (scolumns a)) \<and> kb \<in> set (map fst (scolumns b))
      then Inr \<lparr>lcolumns = scolumns a, rcolumns = scolumns b,
                pairs = concat (map (\<lambda>l. map (\<lambda>r. (l, r))
                          (filter (\<lambda>r. l ka = r kb \<and> l ka \<noteq> Null) (srows b))) (srows a))\<rparr>
      else Inl AnalysisException)"

definition select_column :: "joined_df \<Rightarrow> string \<Rightarrow> (string \<times> dtype) option" where
  "select_column j c =
     (case (map_of (lcolumns j) c, map_of (rcolumns j) c) of
        (Some t, None) \<Rightarrow> Some (c, t)
      | (None, Some t) \<Rightarrow> Some (c, t)
      | _ \<Rightarrow> None)"

definition select_columns :: "joined_df \<Rightarrow> string list \<Rightarrow> error + spark_df" where
  "select_columns j names =
     (if list_all (\<lambda>c. select_column j c \<noteq> None) names
      then Inr \<lparr>scolumns = List.map_filter (select_column j) names,
                srows = map (\<lambda>(l, r). (\<lambda>c. if c \<in> set names
                                             then (if map_of (lcolumns j) c \<noteq> None then l c else r c)
                                             else Null)) (pairs j)\<rparr>
      else Inl AnalysisException)"

definition limit :: "nat \<Rightarrow> spark_df \<Rightarrow> spark_df" where
  "limit n d = d\<lparr>srows := take n (srows d)\<rparr>"

definition toPandas :: "spark_df \<Rightarrow> dataframe" where
  "toPandas d = \<lparr>columns = scolumns d, rows = zip [0..<length (srows d)] (srows d)\<rparr>"

section \<open>The notebook\<close>

text \<open>
  What the notebook reads from outside: the four constants the user fills in, the text
  files, the tables behind the JDBC url, the JSON files as \<open>pd.read_json\<close> parses
  them, and how Python reads numbers from strings. A text file is its lines, each with
  its line end.
\<close>

record env =
  CREDENTIALS_PATH :: string
  ZOS_SYSTEM :: pystr
  DATASET_NAME :: string
  SMF110_PATH :: string
  text_files :: "string \<Rightarrow> pystr list option"
  jdbc_tables :: "pystr \<Rightarrow> string \<Rightarrow> spark_df option"
  json_files :: "string \<Rightarrow> dataframe option"
  py_int :: "pystr \<Rightarrow> int option"
  py_float :: "pystr \<Rightarrow> rat option"

text \<open>
  The state of the kernel. A dataframe is an object: a variable holds its address in
  the heap, an assignment to a column changes the object in place, and indexing and
  \<open>copy(deep=True)\<close> make a new object. The results of the aggregations are values.
\<close>

record notebook =
  heap :: "dataframe list"
  password :: "pystr option"
  smf110_df :: "nat option"
  orig_smf110_df :: "nat option"
  cics_run_per_region :: "(cell \<times> nat) list option"
  cpu_time_per_region :: "(cell \<times> rat) list option"
  smf110_filtered_tran_df :: "nat option"
  cpu_time_per_trans :: "(cell list \<times> (cell \<times> rat option list) list) option"
  trans_rate_per_region :: "rat pivot option"
  cics_trans_df :: "((cell \<times> cell) \<times> rat option list) list option"
  cpu_percentage_per_region :: "((cell \<times> cell) \<times> rat option) list option"

definition new_notebook :: notebook where
  "new_notebook =
     \<lparr>heap = [], password = None, smf110_df = None, orig_smf110_df = None,
      cics_run_per_region = None, cpu_time_per_region = None, smf110_filtered_tran_df = None,
      cpu_time_per_trans = None, trans_rate_per_region = None, cics_trans_df = None,
      cpu_percentage_per_region = None\<rparr>"

definition deref :: "notebook \<Rightarrow> nat option \<Rightarrow> error + (nat \<times> dataframe)" where
  "deref nb v =
     (case v of
        None \<Rightarrow> Inl NameError
      | Some a \<Rightarrow> if a < length (heap nb) then Inr (a, heap nb ! a) else Inl NameError)"

definition alloc :: "dataframe \<Rightarrow> notebook \<Rightarrow> nat \<times> notebook" where
  "alloc df nb = (length (heap nb), nb\<lparr>heap := heap nb @ [df]\<rparr>)"

definition assign_column :: "nat \<Rightarrow> string \<Rightarrow> series \<Rightarrow> notebook \<Rightarrow> notebook" where
  "assign_column a c s nb = nb\<lparr>heap := (heap nb)[a := setitem (heap nb ! a) c s]\<rparr>"

subsection \<open>Data extraction\<close>



definition get_smf_data :: "env \<Rightarrow> pystr \<Rightarrow> string \<Rightarrow> error + spark_df" where
  "get_smf_data e pw dbtable =
     (case jdbc_tables e
             (pystr_of ''jdbc:rs:dv://'' @ ZOS_SYSTEM e
                @ pystr_of '';DBTY=DVS;user=PROVIDE-USERNAME-HERE;password='' @ pw) dbtable of
        None \<Rightarrow> Inl Py4JJavaError
      | Some d \<Rightarrow> Inr d)"

definition smf_columns :: "string list" where
  "smf_columns =
     [''SMFMNSPN'', ''TRAN'', ''TRANNUM'', ''SMF_SID'', ''USRCPUT_TIMER'', ''USRCPUT_FLAG'',
      ''USRCPUT_COUNT'', ''SMFMNRSD'', ''SMFMNRST'', ''DB2REQCT'', ''WMQREQCT'']"

definition spark_extract :: "env \<Rightarrow> pystr \<Rightarrow> error + dataframe" where
  "spark_extract e pw =
     and_then (get_smf_data e pw (''SMF_1100P_PERFORMANCE__'' @ DATASET_NAME e)) (\<lambda>cics_section.
     and_then (get_smf_data e pw (''SMF_1100P__'' @ DATASET_NAME e)) (\<lambda>product_section.
     and_then (join_inner cics_section ''PARENT_KEY'' product_section ''CHILD_KEY'') (\<lambda>joined.
     and_then (select_columns joined smf_columns) (\<lambda>filtered_df.
     Inr (toPandas (limit 80000 filtered_df))))))"


text \<open>
  \<^verbatim>\<open>
  smf110_df = pd.read_json(SMF110_PATH)
  smf110_df['SMFMNRST'] = pd.to_datetime(smf110_df['SMFMNRST'],unit='ms')
  \<close>
  A path with no JSON file behind it makes \<open>read_json\<close> raise.
\<close>

definition read_json :: "env \<Rightarrow> string \<Rightarrow> error + dataframe" where
  "read_json e path = (case json_files e path of None \<Rightarrow> Inl ValueError | Some df \<Rightarrow> Inr df)"

definition cell_json_extraction :: "env \<Rightarrow> notebook \<Rightarrow> error + notebook" where
  "cell_json_extraction e nb =
     and_then (read_json e (SMF110_PATH e)) (\<lambda>df.
     let (a, nb1) = alloc df nb; nb2 = nb1\<lparr>smf110_df := Some a\<rparr> in
     and_then (getitem df ''SMFMNRST'') (\<lambda>s.
     and_then (astype (cast_datetime_ms (py_float e)) Datetime64 s) (\<lambda>t.
     Inr (assign_column a ''SMFMNRST'' t nb2))))"

subsection \<open>Data cleaning\<close>

text \<open>
  \<^verbatim>\<open>
  smf110_df['TRANNUM'] = smf110_df['TRANNUM'].astype(int)
  smf110_df['USRCPUT_TIMER'] = smf110_df['USRCPUT_TIMER'].astype(float)
  smf110_df['USRCPUT_COUNT'] = smf110_df['USRCPUT_COUNT'].astype(int)
  orig_smf110_df = smf110_df.copy(deep=True)
  smf110_df = smf110_df[smf110_df.SMFMNSPN.str.contains("CICS") == True]
  \<close>
\<close>

definition cast_column :: "nat \<Rightarrow> string \<Rightarrow> (cell \<Rightarrow> error + cell) \<Rightarrow> dtype \<Rightarrow> notebook \<Rightarrow> error + notebook" where
  "cast_column a c cast t nb =
     and_then (getitem (heap nb ! a) c) (\<lambda>s.
     and_then (astype cast t s) (\<lambda>u.
     Inr (assign_column a c u nb)))"

definition cics_filter :: "dataframe \<Rightarrow> error + dataframe" where
  "cics_filter df =
     and_then (getattr df ''SMFMNSPN'') (\<lambda>s.
     and_then (str_contains pat_CICS s) (\<lambda>m.
     bool_index df (eq_True m)))"

definition cell_data_cleaning :: "env \<Rightarrow> notebook \<Rightarrow> error + notebook" where
  "cell_data_cleaning e nb =
     and_then (deref nb (smf110_df nb)) (\<lambda>(a, df0).
     and_then (cast_column a ''TRANNUM'' (cast_int (py_int e)) Int64 nb) (\<lambda>nb1.
     and_then (cast_column a ''USRCPUT_TIMER'' (cast_float (py_float e)) Float64 nb1) (\<lambda>nb2.
     and_then (cast_column a ''USRCPUT_COUNT'' (cast_int (py_int e)) Int64 nb2) (\<lambda>nb3.
     let (oa, nb4) = alloc (heap nb3 ! a) nb3;
         nb5 = nb4\<lparr>orig_smf110_df := Some oa\<rparr> in
     and_then (cics_filter (heap nb5 ! a)) (\<lambda>kept.
     let (b, nb6) = alloc kept nb5 in
     Inr (nb6\<lparr>smf110_df := Some b\<rparr>))))))"

subsection \<open>Exploratory analysis\<close>

text \<open>
  The cell that prints the number of user tasks and three totals reads the columns
  \<open>USRCPUT_TIMER\<close>, \<open>DB2REQCT\<close> and \<open>WMQREQCT\<close>; it changes nothing.
\<close>

definition cell_totals :: "notebook \<Rightarrow> error + notebook" where
  "cell_totals nb =
     and_then (deref nb (smf110_df nb)) (\<lambda>(a, df).
     and_then (and_then (getitem df ''USRCPUT_TIMER'') series_sum) (\<lambda>cpu.
     and_then (and_then (getitem df ''DB2REQCT'') series_sum) (\<lambda>db2.
     and_then (and_then (getitem df ''WMQREQCT'') series_sum) (\<lambda>wmq.
     Inr nb))))"

text \<open>
  \<^verbatim>\<open>
  cics_run_per_region = smf110_df['SMFMNSPN'].value_counts()
  ...
  plt.legend(smf110_df['SMF_SID'])
  \<close>
  The chart itself is no part of the state; its legend reads the column \<open>SMF_SID\<close>.
\<close>

definition cell_cics_run_per_region :: "notebook \<Rightarrow> error + notebook" where
  "cell_cics_run_per_region nb =
     and_then (deref nb (smf110_df nb)) (\<lambda>(a, df).
     and_then (getitem df ''SMFMNSPN'') (\<lambda>s.
     and_then (getitem df ''SMF_SID'') (\<lambda>legend.
     Inr (nb\<lparr>cics_run_per_region := Some (value_counts s)\<rparr>))))"

text \<open>
  \<^verbatim>\<open>
  cpu_time_per_region = smf110_df.groupby(['SMFMNSPN'])['USRCPUT_TIMER'].sum()
  ...
  plt.legend(smf110_df['SMF_SID'])
  \<close>
\<close>

definition cpu_time_by_region :: "dataframe \<Rightarrow> error + (cell \<times> rat) list" where
  "cpu_time_by_region df =
     and_then (require_columns df [''SMFMNSPN'', ''USRCPUT_TIMER'']) (\<lambda>u.
     groupby_sum (key1 ''SMFMNSPN'') ''USRCPUT_TIMER'' df)"

definition cell_cpu_time_per_region :: "notebook \<Rightarrow> error + notebook" where
  "cell_cpu_time_per_region nb =
     and_then (deref nb (smf110_df nb)) (\<lambda>(a, df).
     and_then (cpu_time_by_region df) (\<lambda>res.
     and_then (getitem df ''SMF_SID'') (\<lambda>legend.
     Inr (nb\<lparr>cpu_time_per_region := Some res\<rparr>))))"

subsection \<open>Use case\<close>

text \<open>
  \<^verbatim>\<open>
  smf110_filtered_tran_df = smf110_df[smf110_df['TRAN'].str.contains('^Y[1-5]95$|MAP')]
  smf110_filtered_tran_df = smf110_filtered_tran_df [smf110_df['SMFMNSPN'].str.contains('CICS3AAB|CICS6AAA')]
  \<close>
  The second mask is taken from \<open>smf110_df\<close> and aligned on the index of the dataframe
  it filters.
\<close>

definition cell_filtered_tran :: "notebook \<Rightarrow> error + notebook" where
  "cell_filtered_tran nb =
     and_then (deref nb (smf110_df nb)) (\<lambda>(a, df).
     and_then (getitem df ''TRAN'') (\<lambda>s1.
     and_then (str_contains pat_tran s1) (\<lambda>m1.
     and_then (bool_index df m1) (\<lambda>f1.
     let (b, nb1) = alloc f1 nb; nb2 = nb1\<lparr>smf110_filtered_tran_df := Some b\<rparr> in
     and_then (getitem df ''SMFMNSPN'') (\<lambda>s2.
     and_then (str_contains pat_regions s2) (\<lambda>m2.
     and_then (bool_index f1 m2) (\<lambda>f2.
     let (c, nb3) = alloc f2 nb2 in
     Inr (nb3\<lparr>smf110_filtered_tran_df := Some c\<rparr>))))))))"

text \<open>
  \<^verbatim>\<open>cpu_time_per_trans = smf110_filtered_tran_df.groupby(['TRAN', 'SMF_SID'])['USRCPUT_TIMER'].sum().unstack()\<close>
\<close>

definition cell_cpu_time_per_trans :: "notebook \<Rightarrow> error + notebook" where
  "cell_cpu_time_per_trans nb =
     and_then (deref nb (smf110_filtered_tran_df nb)) (\<lambda>(a, df).
     and_then (require_columns df [''TRAN'', ''SMF_SID'', ''USRCPUT_TIMER'']) (\<lambda>u.
     and_then (groupby_sum (key2 ''TRAN'' ''SMF_SID'') ''USRCPUT_TIMER'' df) (\<lambda>res.
     Inr (nb\<lparr>cpu_time_per_trans := Some (unstack res)\<rparr>))))"

text \<open>
  \<^verbatim>\<open>
  smf110_filtered_tran_df['DATETIME_SECOND'] = smf110_filtered_tran_df['SMFMNRST'].apply(lambda x: x.second)
  trans_rate_per_region = smf110_filtered_tran_df[['SMF_SID','SMFMNSPN','DATETIME_SECOND', 'TRAN']].pivot_table(
      index=['SMF_SID','SMFMNSPN','DATETIME_SECOND'], columns=['TRAN'], aggfunc=len)
  trans_rate_per_region = trans_rate_per_region.fillna(0)
  \<close>
  followed by the loop. \<open>x.second\<close> is the second of the minute of a timestamp, a
  missing value for \<open>NaT\<close>, and no attribute of any other value.
\<close>

fun second_of :: "cell \<Rightarrow> error + cell" where
  "second_of (TimeV t) = Inr (IntV ((t div 1000) mod 60))"
| "second_of Null = Inr Null"
| "second_of c = Inl AttributeError"

definition apply_second :: "series \<Rightarrow> error + series" where
  "apply_second s =
     and_then (traverse (\<lambda>(l, c). and_then (second_of c) (\<lambda>v. Inr (l, v))) (items s)) (\<lambda>xs.
     Inr \<lparr>sdtype = (if list_ex (\<lambda>(l, v). v = Null) xs then Float64 else Int64), items = xs\<rparr>)"

definition trans_rate :: "dataframe \<Rightarrow> error + rat pivot" where
  "trans_rate df =
     and_then (require_columns df [''SMF_SID'', ''SMFMNSPN'', ''DATETIME_SECOND'', ''TRAN'']) (\<lambda>u.
     Inr (fillna0 (pivot_len (key4 ''SMF_SID'' ''SMFMNSPN'' ''DATETIME_SECOND'' ''TRAN'') (rows df))))"

definition cell_trans_rate :: "notebook \<Rightarrow> error + notebook" where
  "cell_trans_rate nb =
     and_then (deref nb (smf110_filtered_tran_df nb)) (\<lambda>(a, df).
     and_then (getitem df ''SMFMNRST'') (\<lambda>s.
     and_then (apply_second s) (\<lambda>t.
     let nb1 = assign_column a ''DATETIME_SECOND'' t nb in
     and_then (trans_rate (heap nb1 ! a)) (\<lambda>pv.
     Inr (nb1\<lparr>trans_rate_per_region := Some pv, cics_trans_df := Some (cics_trans_loop pv)\<rparr>)))))"

text \<open>
  \<^verbatim>\<open>
  cpu_percentage_per_region = smf110_filtered_tran_df[['SMF_SID','SMFMNSPN', 'USRCPUT_TIMER']].pivot_table(
      index=['SMF_SID','SMFMNSPN'], values=['USRCPUT_TIMER'], aggfunc=np.sum)
  cpu_percentage_per_region = cpu_percentage_per_region.apply(
      lambda x : x / float(orig_smf110_df['USRCPUT_TIMER'].sum()))
  \<close>
  A float divided by the float zero is no finite number: \<open>None\<close>.
\<close>

definition float_div :: "rat \<Rightarrow> rat \<Rightarrow> rat option" where
  "float_div x t = (if t = 0 then None else Some (x / t))"

definition cpu_percentage :: "dataframe \<Rightarrow> dataframe \<Rightarrow> error + ((cell \<times> cell) \<times> rat option) list" where
  "cpu_percentage filtered orig =
     and_then (require_columns filtered [''SMF_SID'', ''SMFMNSPN'', ''USRCPUT_TIMER'']) (\<lambda>u.
     and_then (groupby_sum (key2 ''SMF_SID'' ''SMFMNSPN'') ''USRCPUT_TIMER'' filtered) (\<lambda>group_sums.
     and_then (getitem orig ''USRCPUT_TIMER'') (\<lambda>s.
     and_then (series_sum s) (\<lambda>total.
     Inr (map (\<lambda>(k, x). (k, float_div x total)) group_sums)))))"

definition cell_cpu_percentage :: "notebook \<Rightarrow> error + notebook" where
  "cell_cpu_percentage nb =
     and_then (deref nb (smf110_filtered_tran_df nb)) (\<lambda>(a, filtered).
     and_then (deref nb (orig_smf110_df nb)) (\<lambda>(oa, orig).
     and_then (cpu_percentage filtered orig) (\<lambda>res.
     Inr (nb\<lparr>cpu_percentage_per_region := Some res\<rparr>))))"

subsection \<open>Running the notebook\<close>

text \<open>The cells after the data cleaning, in the order of the notebook.\<close>

definition analysis_cells :: "(notebook \<Rightarrow> error + notebook) list" where
  "analysis_cells =
     [cell_totals, cell_cics_run_per_region, cell_cpu_time_per_region, cell_filtered_tran,
      cell_cpu_time_per_trans, cell_trans_rate, cell_cpu_percentage]"

fun run_cells :: "(notebook \<Rightarrow> error + notebook) list \<Rightarrow> notebook \<Rightarrow> error + notebook" where
  "run_cells [] nb = Inr nb"
| "run_cells (c # cs) nb = and_then (c nb) (run_cells cs)"


definition run_json_path :: "env \<Rightarrow> error + notebook" where
  "run_json_path e =
     run_cells ([cell_json_extraction e, cell_data_cleaning e] @ analysis_cells) new_notebook"

section \<open>Notions the properties are stated with\<close>


text \<open>
  The values of a column of integers, of a column of floats (\<open>NaN\<close> is a float) and of a
  column of timestamps (\<open>NaT\<close> is one).
\<close>

fun is_int :: "cell \<Rightarrow> bool" where
  "is_int (IntV i) = True"
| "is_int c = False"

fun is_float :: "cell \<Rightarrow> bool" where
  "is_float (FloatV q) = True"
| "is_float Null = True"
| "is_float c = False"


definition column_holds :: "dataframe \<Rightarrow> string \<Rightarrow> dtype \<Rightarrow> (cell \<Rightarrow> bool) \<Rightarrow> bool" where
  "column_holds df c t P \<longleftrightarrow> map_of (columns df) c = Some t \<and> list_all (\<lambda>(l, r). P (r c)) (rows df)"

text \<open>
  The column types of the claims: \<open>TRANNUM\<close> and \<open>USRCPUT_COUNT\<close> hold integers,
  \<open>USRCPUT_TIMER\<close> holds floats; \<open>SMFMNRST\<close> holds timestamps.
\<close>

definition numbers_typed :: "dataframe \<Rightarrow> bool" where
  "numbers_typed df \<longleftrightarrow>
     column_holds df ''TRANNUM'' Int64 is_int \<and> column_holds df ''USRCPUT_TIMER'' Float64 is_float
     \<and> column_holds df ''USRCPUT_COUNT'' Int64 is_int"




text \<open>A dataframe with the columns of another and some of its rows.\<close>

definition sub_frame :: "dataframe \<Rightarrow> dataframe \<Rightarrow> bool" where
  "sub_frame d df \<longleftrightarrow> columns d = columns df \<and> mset (rows d) \<subseteq># mset (rows df)"

text \<open>A row written as a list of its cells; any other column holds a missing value.\<close>

definition row_of :: "(string \<times> cell) list \<Rightarrow> row" where
  "row_of kvs = (\<lambda>c. case map_of kvs c of None \<Rightarrow> Null | Some v \<Rightarrow> v)"

text \<open>\<open>cast_of cast c t df d\<close>: the dataframe \<open>d\<close> is \<open>df\<close> with its column \<open>c\<close> cast.\<close>

definition cast_of :: "(cell \<Rightarrow> error + cell) \<Rightarrow> string \<Rightarrow> dtype \<Rightarrow> dataframe \<Rightarrow> dataframe \<Rightarrow> bool" where
  "cast_of cast c t df d \<longleftrightarrow>
     map_of (columns df) c \<noteq> None \<and> columns d = set_dtype c t (columns df)
     \<and> list_all2 (\<lambda>(l, r) (k, q). k = l \<and> cast (r c) = Inr (q c) \<and> q = r(c := q c)) (rows df) (rows d)"





section \<open>Example inputs\<close>

definition example_regions :: dataframe where
  "example_regions =
     \<lparr>columns = [(''SMFMNSPN'', Object)],
      rows = [(0, \<lambda>c. StrV (pystr_of ''XCICS1'')), (1, \<lambda>c. StrV (pystr_of ''BATCH'')),
              (2, \<lambda>c. Null), (3, \<lambda>c. StrV (pystr_of ''CICS3AAB'')), (4, \<lambda>c. IntV 7)]\<rparr>"


text \<open>
  Two tables behind the JDBC url, with one record that joins; the time of the record
  comes as text.
\<close>

definition example_cics_section :: spark_df where
  "example_cics_section =
     \<lparr>scolumns = [(''PARENT_KEY'', Int64), (''TRAN'', Object), (''TRANNUM'', Object),
                  (''USRCPUT_TIMER'', Object), (''USRCPUT_FLAG'', Int64), (''USRCPUT_COUNT'', Int64),
                  (''DB2REQCT'', Int64), (''WMQREQCT'', Int64)],
      srows = [row_of [(''PARENT_KEY'', IntV 1), (''TRAN'', StrV (pystr_of ''MAP'')), (''TRANNUM'', FloatV 12),
                       (''USRCPUT_TIMER'', FloatV (1 / 2)), (''USRCPUT_FLAG'', IntV 0),
                       (''USRCPUT_COUNT'', IntV 3), (''DB2REQCT'', IntV 0), (''WMQREQCT'', IntV 0)],
               row_of [(''PARENT_KEY'', IntV 2), (''TRAN'', StrV (pystr_of ''Y195'')), (''TRANNUM'', FloatV 13),
                       (''USRCPUT_TIMER'', FloatV (1 / 4)), (''USRCPUT_FLAG'', IntV 0),
                       (''USRCPUT_COUNT'', IntV 1), (''DB2REQCT'', IntV 0), (''WMQREQCT'', IntV 0)]]\<rparr>"

definition example_product_section :: spark_df where
  "example_product_section =
     \<lparr>scolumns = [(''CHILD_KEY'', Int64), (''SMFMNSPN'', Object), (''SMF_SID'', Object),
                  (''SMFMNRSD'', Object), (''SMFMNRST'', Object)],
      srows = [row_of [(''CHILD_KEY'', IntV 1), (''SMFMNSPN'', StrV (pystr_of ''CICS3AAB'')),
                       (''SMF_SID'', StrV (pystr_of ''SYS1'')), (''SMFMNRSD'', StrV (pystr_of ''2017-06-01'')),
                       (''SMFMNRST'', StrV (pystr_of ''10:15:07''))]]\<rparr>"

definition example_spark_env :: env where
  "example_spark_env =
     \<lparr>CREDENTIALS_PATH = ''/home/user/pw'', ZOS_SYSTEM = pystr_of ''zos1'', DATASET_NAME = ''D1'',
      SMF110_PATH = '''',
      text_files = (\<lambda>p. if p = ''/home/user/pw'' then Some [pystr_of ''secret''] else None),
      jdbc_tables = (\<lambda>url t. if t = ''SMF_1100P_PERFORMANCE__D1'' then Some example_cics_section
                             else if t = ''SMF_1100P__D1'' then Some example_product_section else None),
      json_files = (\<lambda>p. None),
      py_int = (\<lambda>s. None), py_float = (\<lambda>s. None)\<rparr>"

text \<open>
  A JSON file with two records and nine columns: it has neither \<open>USRCPUT_FLAG\<close> nor
  \<open>SMFMNRSD\<close>. One record is of a region that is no CICS region, with a negative
  \<open>USRCPUT_TIMER\<close>.
\<close>

definition example_json :: dataframe where
  "example_json =
     \<lparr>columns = [(''SMFMNSPN'', Object), (''TRAN'', Object), (''TRANNUM'', Int64), (''SMF_SID'', Object),
                 (''USRCPUT_TIMER'', Float64), (''USRCPUT_COUNT'', Int64), (''SMFMNRST'', Int64),
                 (''DB2REQCT'', Int64), (''WMQREQCT'', Int64)],
      rows = [(0, row_of [(''SMFMNSPN'', StrV (pystr_of ''CICS3AAB'')), (''TRAN'', StrV (pystr_of ''MAP'')),
                          (''TRANNUM'', IntV 1), (''SMF_SID'', StrV (pystr_of ''SYS1'')),
                          (''USRCPUT_TIMER'', FloatV 2), (''USRCPUT_COUNT'', IntV 1), (''SMFMNRST'', IntV 1000),
                          (''DB2REQCT'', IntV 0), (''WMQREQCT'', IntV 0)]),
              (1, row_of [(''SMFMNSPN'', StrV (pystr_of ''BATCH'')), (''TRAN'', StrV (pystr_of ''X'')),
                          (''TRANNUM'', IntV 2), (''SMF_SID'', StrV (pystr_of ''SYS1'')),
                          (''USRCPUT_TIMER'', FloatV (- 1)), (''USRCPUT_COUNT'', IntV 1), (''SMFMNRST'', IntV 2000),
                          (''DB2REQCT'', IntV 0), (''WMQREQCT'', IntV 0)])]\<rparr>"

definition example_json_env :: env where
  "example_json_env =
     \<lparr>CREDENTIALS_PATH = '''', ZOS_SYSTEM = [], DATASET_NAME = '''', SMF110_PATH = ''smf110.json'',
      text_files = (\<lambda>p. None), jdbc_tables = (\<lambda>url t. None),
      json_files = (\<lambda>p. if p = ''smf110.json'' then Some example_json else None),
      py_int = (\<lambda>s. None), py_float = (\<lambda>s. None)\<rparr>"

text \<open>The states of the notebook on the JSON file, cell after cell.\<close>

definition example_extracted :: notebook where
  "example_extracted =
     (case cell_json_extraction example_json_env new_notebook of Inr nb \<Rightarrow> nb | Inl e \<Rightarrow> new_notebook)"

definition example_cleaned :: notebook where
  "example_cleaned =
     (case cell_data_cleaning example_json_env example_extracted of Inr nb \<Rightarrow> nb | Inl e \<Rightarrow> new_notebook)"

definition example_analysed :: notebook where
  "example_analysed =
     (case run_cells analysis_cells example_cleaned of Inr nb \<Rightarrow> nb | Inl e \<Rightarrow> new_notebook)"












section \<open>Properties of the word count\<close>














text \<open>
  What \<open>split\<close> returns: tokens that are not empty and hold no whitespace, and that
  together are the text without its whitespace.
\<close>

lemma split_from_nonempty: "t \<in> set (split_from cur s) \<Longrightarrow> t \<noteq> []"
  by (induction cur s rule: split_from.induct) (auto split: if_splits)

lemma split_from_no_whitespace:
  "t \<in> set (split_from cur s) \<Longrightarrow> \<forall>c\<in>set cur. \<not> is_whitespace c \<Longrightarrow> c \<in> set t \<Longrightarrow>
   \<not> is_whitespace c"
  by (induction cur s rule: split_from.induct) (auto split: if_splits)

lemma split_from_concat:
  "concat (split_from cur s) = cur @ filter (\<lambda>c. \<not> is_whitespace c) s"
  by (induction cur s rule: split_from.induct) auto

lemma str_split_tokens:
  "t \<in> set (str_split s) \<Longrightarrow> t \<noteq> [] \<and> (\<forall>c\<in>set t. \<not> is_whitespace c)"
  unfolding str_split_def using split_from_nonempty split_from_no_whitespace[of t "[]" s]
  by auto

lemma str_split_concat: "concat (str_split s) = filter (\<lambda>c. \<not> is_whitespace c) s"
  by (simp add: str_split_def split_from_concat)



section \<open>Errors, lists and strings\<close>

lemma and_then_Inl [simp]: "and_then (Inl e) f = Inl e"
  by (simp add: and_then_def)

lemma and_then_Inr [simp]: "and_then (Inr x) f = f x"
  by (simp add: and_then_def)

lemma and_then_eq_Inr: "and_then m f = Inr y \<longleftrightarrow> (\<exists>x. m = Inr x \<and> f x = Inr y)"
  by (cases m) auto

lemma and_then_eq_Inl:
  "and_then m f = Inl e \<longleftrightarrow> m = Inl e \<or> (\<exists>x. m = Inr x \<and> f x = Inl e)"
  by (cases m) auto

lemma traverse_Inr_length: "traverse f xs = Inr ys \<Longrightarrow> length ys = length xs"
  by (induction xs arbitrary: ys) (auto split: sum.splits)

lemma traverse_Inr_all2: "traverse f xs = Inr ys \<Longrightarrow> list_all2 (\<lambda>x y. f x = Inr y) xs ys"
  by (induction xs arbitrary: ys) (auto split: sum.splits)


lemma starts_with_iff: "starts_with s p \<longleftrightarrow> (\<exists>b. s = p @ b)"
  by (induction s p rule: starts_with.induct) auto

lemma contains_iff: "contains s p \<longleftrightarrow> (\<exists>a b. s = a @ p @ b)"
proof (induction s)
  case Nil
  then show ?case by auto
next
  case (Cons c cs)
  show ?case
  proof
    assume "contains (c # cs) p"
    then consider "starts_with (c # cs) p" | "contains cs p" by auto
    then show "\<exists>a b. c # cs = a @ p @ b"
    proof cases
      case 1
      then obtain b where "c # cs = p @ b" by (auto simp: starts_with_iff)
      then have "c # cs = [] @ p @ b" by simp
      then show ?thesis by blast
    next
      case 2
      then obtain a b where "cs = a @ p @ b" using Cons.IH by blast
      then have "c # cs = (c # a) @ p @ b" by simp
      then show ?thesis by blast
    qed
  next
    assume "\<exists>a b. c # cs = a @ p @ b"
    then obtain a b where ab: "c # cs = a @ p @ b" by blast
    show "contains (c # cs) p"
    proof (cases a)
      case Nil
      with ab have "starts_with (c # cs) p" by (auto simp: starts_with_iff)
      then show ?thesis by simp
    next
      case (Cons x a')
      with ab have "cs = a' @ p @ b" by simp
      then have "contains cs p" using Cons.IH by blast
      then show ?thesis by simp
    qed
  qed
qed

lemma mask_by_position:
  "map snd (filter (\<lambda>((l, b), x). b = Some True) (zip (map (\<lambda>x. (fst x, Some (P x))) xs) xs))
     = filter P xs"
  by (induction xs) auto


section \<open>The CICS filter\<close>

lemma eq_True_no_missing: "\<not> list_ex (\<lambda>(l, b). b = None) (eq_True m)"
  by (auto simp: eq_True_def list_ex_iff)

lemma pat_CICS_iff: "pat_CICS s \<longleftrightarrow> (\<exists>a b. s = a @ pystr_of ''CICS'' @ b)"
  by (simp add: pat_CICS_def contains_iff)

lemma str_cell_contains:
  "(\<exists>s. c = StrV s \<and> (\<exists>a b. s = a @ p @ b)) \<longleftrightarrow> (case c of StrV v \<Rightarrow> contains v p | _ \<Rightarrow> False)"
proof (cases c)
  case (StrV v)
  have "(\<exists>s. StrV v = StrV s \<and> (\<exists>a b. s = a @ p @ b)) \<longleftrightarrow> (\<exists>a b. v = a @ p @ b)"
    by blast
  with StrV show ?thesis by (simp add: contains_iff)
qed simp_all

text \<open>The filter, as a function of the dataframe.\<close>

lemma cics_filter_eq:
  "cics_filter df =
     (case map_of (columns df) ''SMFMNSPN'' of
        None \<Rightarrow> Inl AttributeError
      | Some t \<Rightarrow>
          if t = Object
          then Inr (df\<lparr>rows :=
                 filter (\<lambda>(l, r). \<exists>s a b. r ''SMFMNSPN'' = StrV s \<and> s = a @ pystr_of ''CICS'' @ b)
                   (rows df)\<rparr>)
          else Inl AttributeError)"
proof (cases "map_of (columns df) ''SMFMNSPN''")
  case None
  then show ?thesis by (simp add: cics_filter_def getattr_def)
next
  case (Some t)
  show ?thesis
  proof (cases "t = Object")
    case False
    with Some show ?thesis
      by (simp add: cics_filter_def getattr_def str_contains_def)
  next
    case True
    let ?P = "\<lambda>x :: nat \<times> row. case snd x ''SMFMNSPN'' of StrV v \<Rightarrow> pat_CICS v | _ \<Rightarrow> False"
    let ?m = "eq_True (map (\<lambda>(l, c). (l, case c of StrV v \<Rightarrow> Some (pat_CICS v) | _ \<Rightarrow> None))
                 (map (\<lambda>(l, r). (l, r ''SMFMNSPN'')) (rows df)))"
    have m: "?m = map (\<lambda>x. (fst x, Some (?P x))) (rows df)"
      by (auto simp: eq_True_def split: cell.splits)
    have labels: "map fst ?m = map fst (rows df)"
      unfolding m by simp
    have "map snd (filter (\<lambda>((l, b), x). b = Some True) (zip ?m (rows df))) = filter ?P (rows df)"
      unfolding m by (rule mask_by_position)
    also have "\<dots> = filter (\<lambda>(l, r). \<exists>s a b. r ''SMFMNSPN'' = StrV s \<and> s = a @ pystr_of ''CICS'' @ b) (rows df)"
      by (rule filter_cong) (simp_all add: str_cell_contains pat_CICS_def split: prod.splits cong: cell.case_cong)
    finally have kept: "map snd (filter (\<lambda>((l, b), x). b = Some True) (zip ?m (rows df)))
        = filter (\<lambda>(l, r). \<exists>s a b. r ''SMFMNSPN'' = StrV s \<and> s = a @ pystr_of ''CICS'' @ b) (rows df)" .
    have "cics_filter df = bool_index df ?m"
      using Some True by (simp add: cics_filter_def getattr_def str_contains_def)
    also have "\<dots> = Inr (df\<lparr>rows := map snd (filter (\<lambda>((l, b), x). b = Some True) (zip ?m (rows df)))\<rparr>)"
      unfolding bool_index_def using eq_True_no_missing labels by simp
    finally show ?thesis using Some True kept by simp
  qed
qed

text \<open>
  Claim C3. The filter of the data-cleaning cell keeps a row if and only if its
  \<open>SMFMNSPN\<close> value is a \<open>str\<close> that has \<open>CICS\<close> somewhere in it; the rows kept stay
  in their order, and the columns are unchanged. The filter raises only when
  \<open>SMFMNSPN\<close> is no column of dtype object.
\<close>

theorem cics_filter_substring:
  "cics_filter df =
     (case map_of (columns df) ''SMFMNSPN'' of
        None \<Rightarrow> Inl AttributeError
      | Some t \<Rightarrow>
          if t = Object
          then Inr (df\<lparr>rows :=
                 filter (\<lambda>(l, r). \<exists>s a b. r ''SMFMNSPN'' = StrV s \<and> s = a @ pystr_of ''CICS'' @ b)
                   (rows df)\<rparr>)
          else Inl AttributeError)"
  by (rule cics_filter_eq)

theorem cics_filter_substring_witness:
  "map (\<lambda>(l, r). (l, r ''SMFMNSPN'')) (rows example_regions)
     = [(0, StrV (pystr_of ''XCICS1'')), (1, StrV (pystr_of ''BATCH'')), (2, Null),
        (3, StrV (pystr_of ''CICS3AAB'')), (4, IntV 7)]
   \<and> map_sum id (\<lambda>df. map (\<lambda>(l, r). (l, r ''SMFMNSPN'')) (rows df)) (cics_filter example_regions)
     = Inr [(0, StrV (pystr_of ''XCICS1'')), (3, StrV (pystr_of ''CICS3AAB''))]"
proof -
  have a: "pystr_of ''XCICS1'' = pystr_of ''X'' @ pystr_of ''CICS'' @ pystr_of ''1''"
    by (simp add: pystr_of_def)
  have b: "pystr_of ''CICS3AAB'' = [] @ pystr_of ''CICS'' @ pystr_of ''3AAB''"
    by (simp add: pystr_of_def)
  have c: "\<not> (\<exists>a b. pystr_of ''BATCH'' = a @ pystr_of ''CICS'' @ b)"
    using contains_iff[of "pystr_of ''BATCH''" "pystr_of ''CICS''"] by (simp add: pystr_of_def)
  have "\<exists>x y. pystr_of ''XCICS1'' = x @ pystr_of ''CICS'' @ y" using a by blast
  moreover have "\<exists>x y. pystr_of ''CICS3AAB'' = x @ pystr_of ''CICS'' @ y" using b by blast
  ultimately show ?thesis
    using c cics_filter_substring[of example_regions] by (simp add: example_regions_def)
qed


section \<open>Sums by group\<close>











lemma group_keys_sorted: "sorted (group_keys key rs)"
  by (simp add: group_keys_def)







section \<open>Data extraction\<close>


lemma map_sum_Inr_D: "map_sum f g m = Inr y \<Longrightarrow> \<exists>x. m = Inr x \<and> g x = y"
  by (cases m) auto

lemma select_column_name: "select_column j c = Some y \<Longrightarrow> fst y = c"
  by (auto simp: select_column_def split: option.splits)

lemma map_filter_names:
  "list_all (\<lambda>c. f c \<noteq> None) cs \<Longrightarrow> (\<And>c y. f c = Some y \<Longrightarrow> fst y = c) \<Longrightarrow>
   map fst (List.map_filter f cs) = cs"
  by (induction cs) (auto split: option.splits)

lemma select_columns_names:
  "select_columns j names = Inr d \<Longrightarrow> map fst (scolumns d) = names"
  using map_filter_names[of "select_column j" names] select_column_name
  by (auto simp: select_columns_def split: if_splits)

lemma toPandas_limit:
  "column_names (toPandas (limit n d)) = map fst (scolumns d)
   \<and> length (rows (toPandas (limit n d))) = min n (length (srows d))"
  by (simp add: toPandas_def limit_def column_names_def min_def)

lemma spark_extract_Inr:
  assumes "spark_extract e pw = Inr df"
  shows "column_names df = smf_columns \<and> length (rows df) \<le> 80000"
proof -
  from assms obtain filtered_df joined
    where s: "select_columns joined smf_columns = Inr filtered_df"
      and df: "df = toPandas (limit 80000 filtered_df)"
    by (auto simp: spark_extract_def and_then_eq_Inr)
  show ?thesis
    unfolding df using toPandas_limit[of 80000 filtered_df] select_columns_names[OF s] by simp
qed

lemma set_dtype_names:
  "map fst (set_dtype c t cols) = (if c \<in> set (map fst cols) then map fst cols else map fst cols @ [c])"
  by (induction cols) (auto simp: set_dtype_def)

lemma column_names_setitem:
  "column_names (setitem df c s)
     = (if c \<in> set (column_names df) then column_names df else column_names df @ [c])"
  by (simp add: setitem_def column_names_def set_dtype_names)

lemma getitem_Inr:
  assumes "getitem df c = Inr s"
  shows "c \<in> set (column_names df)"
proof -
  from assms obtain t where "map_of (columns df) c = Some t"
    by (cases "map_of (columns df) c") (simp_all add: getitem_def)
  then have "(c, t) \<in> set (columns df)" by (rule map_of_SomeD)
  then have "fst (c, t) \<in> fst ` set (columns df)" by (rule imageI)
  then show ?thesis by (simp add: column_names_def)
qed


lemma cell_json_extraction_Inr:
  assumes "cell_json_extraction e nb = Inr nb1"
  shows "\<exists>jf s t. json_files e (SMF110_PATH e) = Some jf \<and> getitem jf ''SMFMNRST'' = Inr s
           \<and> astype (cast_datetime_ms (py_float e)) Datetime64 s = Inr t
           \<and> nb1 = nb\<lparr>heap := heap nb @ [setitem jf ''SMFMNRST'' t], smf110_df := Some (length (heap nb))\<rparr>"
proof -
  from assms obtain jf where jf: "read_json e (SMF110_PATH e) = Inr jf"
    and rest: "(let (a, nb1) = alloc jf nb; nb2 = nb1\<lparr>smf110_df := Some a\<rparr> in
       and_then (getitem jf ''SMFMNRST'') (\<lambda>s.
       and_then (astype (cast_datetime_ms (py_float e)) Datetime64 s) (\<lambda>t.
       Inr (assign_column a ''SMFMNRST'' t nb2)))) = Inr nb1"
    by (auto simp: cell_json_extraction_def and_then_eq_Inr)
  from jf have jfile: "json_files e (SMF110_PATH e) = Some jf"
    by (auto simp: read_json_def split: option.splits)
  from rest obtain s t where s: "getitem jf ''SMFMNRST'' = Inr s"
    and t: "astype (cast_datetime_ms (py_float e)) Datetime64 s = Inr t"
    and nb1: "nb1 = assign_column (length (heap nb)) ''SMFMNRST'' t
                      (nb\<lparr>heap := heap nb @ [jf], smf110_df := Some (length (heap nb))\<rparr>)"
    by (auto simp: alloc_def and_then_eq_Inr)
  from nb1 have "nb1 = nb\<lparr>heap := heap nb @ [setitem jf ''SMFMNRST'' t], smf110_df := Some (length (heap nb))\<rparr>"
    by (simp add: assign_column_def)
  with jfile s t show ?thesis by blast
qed

text \<open>
  Claim C4, as amended. The database path always yields exactly the eleven columns of
  the \<open>select\<close>. The JSON path yields the columns of the JSON file, whatever they are:
  the extraction cell needs only \<open>SMFMNRST\<close> among them, and nothing compares them
  with the eleven.
\<close>

theorem extraction_columns:
  "(spark_extract e pw = Inr df \<longrightarrow> column_names df = smf_columns)
   \<and> (cell_json_extraction e nb = Inr nb1 \<longrightarrow>
        (\<exists>jf. json_files e (SMF110_PATH e) = Some jf
           \<and> ''SMFMNRST'' \<in> set (column_names jf)
           \<and> smf110_df nb1 = Some (length (heap nb))
           \<and> column_names (heap nb1 ! length (heap nb)) = column_names jf))"
proof (intro conjI impI)
  assume "spark_extract e pw = Inr df"
  then show "column_names df = smf_columns" using spark_extract_Inr by blast
next
  assume "cell_json_extraction e nb = Inr nb1"
  then obtain jf s t where jf: "json_files e (SMF110_PATH e) = Some jf"
    and s: "getitem jf ''SMFMNRST'' = Inr s"
    and nb1: "nb1 = nb\<lparr>heap := heap nb @ [setitem jf ''SMFMNRST'' t], smf110_df := Some (length (heap nb))\<rparr>"
    using cell_json_extraction_Inr by blast
  have c: "''SMFMNRST'' \<in> set (column_names jf)" by (rule getitem_Inr[OF s])
  then have "column_names (setitem jf ''SMFMNRST'' t) = column_names jf"
    by (simp add: column_names_setitem)
  with jf c nb1
  show "\<exists>jf. json_files e (SMF110_PATH e) = Some jf
           \<and> ''SMFMNRST'' \<in> set (column_names jf)
           \<and> smf110_df nb1 = Some (length (heap nb))
           \<and> column_names (heap nb1 ! length (heap nb)) = column_names jf"
    by simp
qed

lemma example_spark_extract:
  "map_sum id (\<lambda>df. (column_names df, length (rows df)))
     (spark_extract example_spark_env (pystr_of ''secret'')) = Inr (smf_columns, 1)"
  by (simp add: spark_extract_def get_smf_data_def example_spark_env_def join_inner_def
      example_cics_section_def example_product_section_def select_columns_def select_column_def
      smf_columns_def toPandas_def limit_def column_names_def row_of_def)

lemma example_json_extraction:
  "map_sum id (\<lambda>nb. (smf110_df nb, map column_names (heap nb)))
     (cell_json_extraction example_json_env new_notebook)
   = Inr (Some 0, [[''SMFMNSPN'', ''TRAN'', ''TRANNUM'', ''SMF_SID'', ''USRCPUT_TIMER'',
                    ''USRCPUT_COUNT'', ''SMFMNRST'', ''DB2REQCT'', ''WMQREQCT'']])"
  by code_simp

theorem extraction_columns_witness:
  "map_sum id column_names (spark_extract example_spark_env (pystr_of ''secret'')) = Inr smf_columns
   \<and> map_sum id (\<lambda>nb. (smf110_df nb, map column_names (heap nb)))
        (cell_json_extraction example_json_env new_notebook)
      = Inr (Some 0, [column_names example_json])"
proof -
  obtain df where df: "spark_extract example_spark_env (pystr_of ''secret'') = Inr df"
    using map_sum_Inr_D[OF example_spark_extract] by blast
  obtain nb1 where nb1: "cell_json_extraction example_json_env new_notebook = Inr nb1"
    using map_sum_Inr_D[OF example_json_extraction] by blast
  have a: "column_names df = smf_columns"
    using extraction_columns[of example_spark_env "pystr_of ''secret''" df new_notebook nb1] df by blast
  have b: "column_names example_json = [''SMFMNSPN'', ''TRAN'', ''TRANNUM'', ''SMF_SID'', ''USRCPUT_TIMER'',
                    ''USRCPUT_COUNT'', ''SMFMNRST'', ''DB2REQCT'', ''WMQREQCT'']"
    by (simp add: example_json_def column_names_def)
  show ?thesis
    unfolding b example_json_extraction using a df by simp
qed

text \<open>
  The claim as the specification states it fails: the whole notebook runs on the JSON
  file of nine columns, and the dataframe it analyses has these nine columns and not
  the eleven of the database path.
\<close>

theorem json_columns_counterexample:
  "map_sum id (\<lambda>nb. map_option (\<lambda>a. column_names (heap nb ! a)) (smf110_df nb))
     (run_json_path example_json_env)
   = Inr (Some [''SMFMNSPN'', ''TRAN'', ''TRANNUM'', ''SMF_SID'', ''USRCPUT_TIMER'',
                ''USRCPUT_COUNT'', ''SMFMNRST'', ''DB2REQCT'', ''WMQREQCT''])
   \<and> [''SMFMNSPN'', ''TRAN'', ''TRANNUM'', ''SMF_SID'', ''USRCPUT_TIMER'',
       ''USRCPUT_COUNT'', ''SMFMNRST'', ''DB2REQCT'', ''WMQREQCT''] \<noteq> smf_columns"
proof -
  have "map_sum id (\<lambda>nb. map_option (\<lambda>a. column_names (heap nb ! a)) (smf110_df nb))
     (run_json_path example_json_env)
   = Inr (Some [''SMFMNSPN'', ''TRAN'', ''TRANNUM'', ''SMF_SID'', ''USRCPUT_TIMER'',
                ''USRCPUT_COUNT'', ''SMFMNRST'', ''DB2REQCT'', ''WMQREQCT''])"
    by code_simp
  then show ?thesis by (simp add: smf_columns_def)
qed

text \<open>
  Claim C5. The dataframe that the Spark path hands to pandas has at most 80000 rows,
  whatever the tables hold; and the data cleaning and the analysis after it do not
  depend on the tables behind the engine.
\<close>

theorem spark_rows_bounded:
  "(spark_extract e pw = Inr df \<longrightarrow> length (rows df) \<le> 80000)
   \<and> run_cells (cell_data_cleaning (e\<lparr>jdbc_tables := tables\<rparr>) # analysis_cells) nb
       = run_cells (cell_data_cleaning e # analysis_cells) nb"
proof -
  have "cell_data_cleaning (e\<lparr>jdbc_tables := tables\<rparr>) = cell_data_cleaning e"
    by (simp add: cell_data_cleaning_def fun_eq_iff)
  then show ?thesis using spark_extract_Inr by auto
qed

theorem spark_rows_bounded_witness:
  "map_sum id (\<lambda>df. length (rows df)) (spark_extract example_spark_env (pystr_of ''secret'')) = Inr 1
   \<and> (1 :: nat) \<le> 80000"
proof -
  obtain df where df: "spark_extract example_spark_env (pystr_of ''secret'') = Inr df"
    and n: "(column_names df, length (rows df)) = (smf_columns, 1)"
    using map_sum_Inr_D[OF example_spark_extract] by blast
  have "length (rows df) \<le> 80000"
    using spark_rows_bounded[of example_spark_env "pystr_of ''secret''" df] df by blast
  with n df show ?thesis by simp
qed


section \<open>Errors end the run\<close>








section \<open>What each cell does to the state\<close>

lemma mset_mask_subset: "mset (map snd (filter Q (zip m xs))) \<subseteq># mset xs"
proof (induction xs arbitrary: m)
  case Nil
  then show ?case by simp
next
  case (Cons x xs)
  show ?case
  proof (cases m)
    case Nil
    then show ?thesis by simp
  next
    case (Cons b bs)
    have "mset (map snd (filter Q (zip bs xs))) \<subseteq># mset xs" by (rule Cons.IH)
    then have "mset (map snd (filter Q (zip bs xs))) \<subseteq># add_mset x (mset xs)"
      by (meson mset_subset_eq_add_mset_cancel subset_mset.order_trans mset_subset_eq_add_right
          multi_psub_of_add_self subset_mset.less_imp_le)
    with Cons.IH[of bs] Cons show ?thesis by simp
  qed
qed

lemma bool_index_Inr:
  assumes "bool_index df m = Inr d"
  shows "sub_frame d df"
proof -
  from assms consider
      "d = df\<lparr>rows := map snd (filter (\<lambda>((l, b), x). b = Some True) (zip m (rows df)))\<rparr>"
    | "d = df\<lparr>rows := filter (\<lambda>(l, r). map_of m l = Some (Some True)) (rows df)\<rparr>"
    by (auto simp: bool_index_def split: if_splits)
  then show ?thesis
  proof cases
    case 1
    then show ?thesis
      unfolding sub_frame_def by (simp del: mset_map mset_filter add: mset_mask_subset)
  next
    case 2
    then show ?thesis
      unfolding sub_frame_def by simp
  qed
qed

lemma getitem_Inr_items:
  "getitem df c = Inr s \<Longrightarrow>
   items s = map (\<lambda>(l, r). (l, r c)) (rows df) \<and> map_of (columns df) c = Some (sdtype s)"
  by (cases "map_of (columns df) c") (auto simp: getitem_def)

lemma traverse_labelled:
  assumes "traverse (\<lambda>(l, c). and_then (f c) (\<lambda>v. Inr (l, v))) xs = Inr ys"
  shows "list_all2 (\<lambda>(l, c) (k, v). k = l \<and> f c = Inr v) xs ys"
proof -
  have "list_all2 (\<lambda>x y. (case x of (l, c) \<Rightarrow> and_then (f c) (\<lambda>v. Inr (l, v))) = Inr y) xs ys"
    by (rule traverse_Inr_all2[OF assms])
  then show ?thesis
    by (rule list_all2_mono) (auto simp: and_then_eq_Inr)
qed

lemma list_all2_labels:
  "list_all2 (\<lambda>(l, c) (k, v). k = l \<and> P c v) xs ys \<Longrightarrow> map fst ys = map fst xs"
  by (induction xs ys rule: list_all2_induct) auto

lemma astype_Inr:
  assumes "astype cast t s = Inr u"
  shows "sdtype u = t \<and> list_all2 (\<lambda>(l, c) (k, v). k = l \<and> cast c = Inr v) (items s) (items u)"
  using assms traverse_labelled[of cast "items s"]
  by (auto simp: astype_def and_then_eq_Inr)

lemma setitem_cast:
  assumes "list_all2 (\<lambda>(l, c) (k, v). k = l \<and> cast c = Inr v) (map (\<lambda>(l, r). (l, r c)) xs) ys"
  shows "list_all2 (\<lambda>(l, r) (k, q). k = l \<and> cast (r c) = Inr (q c) \<and> q = r(c := q c)) xs
           (map (\<lambda>((l, r), (k, v)). (l, r(c := v))) (zip xs ys))"
  using assms
proof (induction xs arbitrary: ys)
  case Nil
  then show ?case by simp
next
  case (Cons x xs)
  then obtain y ys' where ys: "ys = y # ys'" by (cases ys) auto
  with Cons show ?case by (cases x; cases y) auto
qed

lemma cast_column_Inr:
  assumes "cast_column a c cast t nb = Inr nb1"
  shows "\<exists>d. cast_of cast c t (heap nb ! a) d \<and> nb1 = nb\<lparr>heap := (heap nb)[a := d]\<rparr>"
proof -
  let ?df = "heap nb ! a"
  from assms obtain s u where s: "getitem ?df c = Inr s" and u: "astype cast t s = Inr u"
    and nb1: "nb1 = assign_column a c u nb"
    by (auto simp: cast_column_def and_then_eq_Inr)
  note it = getitem_Inr_items[OF s]
  note ty = astype_Inr[OF u]
  have all2: "list_all2 (\<lambda>(l, c) (k, v). k = l \<and> cast c = Inr v) (map (\<lambda>(l, r). (l, r c)) (rows ?df)) (items u)"
    using ty it by simp
  have labels: "map fst (items u) = map fst (rows ?df)"
    using list_all2_labels[OF all2] by (simp add: comp_def case_prod_unfold)
  have "cast_of cast c t ?df (setitem ?df c u)"
    unfolding cast_of_def setitem_def using it ty labels setitem_cast[OF all2] by simp
  with nb1 show ?thesis by (auto simp: assign_column_def)
qed

lemma cell_data_cleaning_Inr:
  assumes "cell_data_cleaning e nb = Inr nb1"
  shows "\<exists>a d1 d2 d3 kept. smf110_df nb = Some a \<and> a < length (heap nb)
     \<and> cast_of (cast_int (py_int e)) ''TRANNUM'' Int64 (heap nb ! a) d1
     \<and> cast_of (cast_float (py_float e)) ''USRCPUT_TIMER'' Float64 d1 d2
     \<and> cast_of (cast_int (py_int e)) ''USRCPUT_COUNT'' Int64 d2 d3
     \<and> cics_filter d3 = Inr kept
     \<and> nb1 = nb\<lparr>heap := (heap nb)[a := d3] @ [d3, kept],
                orig_smf110_df := Some (length (heap nb)),
                smf110_df := Some (Suc (length (heap nb)))\<rparr>"
proof -
  from assms obtain a df0 nba nbb nbc kept
    where d: "deref nb (smf110_df nb) = Inr (a, df0)"
      and c1: "cast_column a ''TRANNUM'' (cast_int (py_int e)) Int64 nb = Inr nba"
      and c2: "cast_column a ''USRCPUT_TIMER'' (cast_float (py_float e)) Float64 nba = Inr nbb"
      and c3: "cast_column a ''USRCPUT_COUNT'' (cast_int (py_int e)) Int64 nbb = Inr nbc"
      and f: "cics_filter (heap (nbc\<lparr>heap := heap nbc @ [heap nbc ! a], orig_smf110_df := Some (length (heap nbc))\<rparr>) ! a) = Inr kept"
      and nb1: "nb1 = nbc\<lparr>heap := heap nbc @ [heap nbc ! a, kept],
                          orig_smf110_df := Some (length (heap nbc)),
                          smf110_df := Some (Suc (length (heap nbc)))\<rparr>"
    by (auto simp: cell_data_cleaning_def and_then_eq_Inr alloc_def)
  from d have a: "smf110_df nb = Some a" "a < length (heap nb)"
    by (auto simp: deref_def split: option.splits if_splits)
  from cast_column_Inr[OF c1] obtain d1
    where d1: "cast_of (cast_int (py_int e)) ''TRANNUM'' Int64 (heap nb ! a) d1"
      and nba: "nba = nb\<lparr>heap := (heap nb)[a := d1]\<rparr>" by blast
  have h1: "heap nba ! a = d1" using nba a by simp
  from cast_column_Inr[OF c2] obtain d2
    where d2: "cast_of (cast_float (py_float e)) ''USRCPUT_TIMER'' Float64 d1 d2"
      and nbb: "nbb = nba\<lparr>heap := (heap nba)[a := d2]\<rparr>" unfolding h1 by blast
  have h2: "heap nbb ! a = d2" using nbb nba a by simp
  from cast_column_Inr[OF c3] obtain d3
    where d3: "cast_of (cast_int (py_int e)) ''USRCPUT_COUNT'' Int64 d2 d3"
      and nbc: "nbc = nbb\<lparr>heap := (heap nbb)[a := d3]\<rparr>" unfolding h2 by blast
  have hc: "heap nbc = (heap nb)[a := d3]" using nbc nbb nba by simp
  have h3: "heap nbc ! a = d3" using hc a by simp
  have len: "length (heap nbc) = length (heap nb)" using hc by simp
  have k: "cics_filter d3 = Inr kept"
    using f h3 a len by (simp add: nth_append)
  have "nb1 = nb\<lparr>heap := (heap nb)[a := d3] @ [d3, kept],
                orig_smf110_df := Some (length (heap nb)),
                smf110_df := Some (Suc (length (heap nb)))\<rparr>"
    unfolding nb1 h3 len unfolding nbc nbb nba by simp
  with a d1 d2 d3 k show ?thesis by blast
qed


lemma deref_Inr:
  "deref nb v = Inr (a, df) \<Longrightarrow> v = Some a \<and> a < length (heap nb) \<and> df = heap nb ! a"
  by (auto simp: deref_def split: option.splits if_splits)

lemma cell_totals_Inr: "cell_totals nb = Inr nb1 \<Longrightarrow> nb1 = nb"
  by (auto simp: cell_totals_def and_then_eq_Inr)

lemma cell_cics_run_per_region_Inr:
  "cell_cics_run_per_region nb = Inr nb1 \<Longrightarrow> \<exists>x. nb1 = nb\<lparr>cics_run_per_region := x\<rparr>"
  by (auto simp: cell_cics_run_per_region_def and_then_eq_Inr)

lemma cell_cpu_time_per_region_Inr:
  "cell_cpu_time_per_region nb = Inr nb1 \<Longrightarrow> \<exists>x. nb1 = nb\<lparr>cpu_time_per_region := x\<rparr>"
  by (auto simp: cell_cpu_time_per_region_def and_then_eq_Inr)

lemma cell_cpu_time_per_trans_Inr:
  "cell_cpu_time_per_trans nb = Inr nb1 \<Longrightarrow> \<exists>x. nb1 = nb\<lparr>cpu_time_per_trans := x\<rparr>"
  by (auto simp: cell_cpu_time_per_trans_def and_then_eq_Inr)

lemma cell_cpu_percentage_Inr:
  assumes "cell_cpu_percentage nb = Inr nb1"
  shows "\<exists>a b res. smf110_filtered_tran_df nb = Some a \<and> a < length (heap nb)
           \<and> orig_smf110_df nb = Some b \<and> b < length (heap nb)
           \<and> cpu_percentage (heap nb ! a) (heap nb ! b) = Inr res
           \<and> nb1 = nb\<lparr>cpu_percentage_per_region := Some res\<rparr>"
proof -
  from assms obtain a filtered b orig res
    where d1: "deref nb (smf110_filtered_tran_df nb) = Inr (a, filtered)"
      and d2: "deref nb (orig_smf110_df nb) = Inr (b, orig)"
      and r: "cpu_percentage filtered orig = Inr res"
      and nb1: "nb1 = nb\<lparr>cpu_percentage_per_region := Some res\<rparr>"
    by (auto simp: cell_cpu_percentage_def and_then_eq_Inr)
  from deref_Inr[OF d1] deref_Inr[OF d2] r nb1 show ?thesis by blast
qed

lemma cell_filtered_tran_Inr:
  assumes "cell_filtered_tran nb = Inr nb1"
  shows "\<exists>a f1 f2. smf110_df nb = Some a \<and> a < length (heap nb)
           \<and> sub_frame f1 (heap nb ! a) \<and> sub_frame f2 f1
           \<and> nb1 = nb\<lparr>heap := heap nb @ [f1, f2],
                      smf110_filtered_tran_df := Some (Suc (length (heap nb)))\<rparr>"
proof -
  from assms obtain a df m1 f1 m2 f2
    where d: "deref nb (smf110_df nb) = Inr (a, df)"
      and b1: "bool_index df m1 = Inr f1"
      and b2: "bool_index f1 m2 = Inr f2"
      and nb1: "nb1 = nb\<lparr>heap := heap nb @ [f1, f2],
                      smf110_filtered_tran_df := Some (Suc (length (heap nb)))\<rparr>"
    by (auto simp: cell_filtered_tran_def and_then_eq_Inr alloc_def)
  from deref_Inr[OF d] bool_index_Inr[OF b1] bool_index_Inr[OF b2] nb1 show ?thesis by blast
qed

lemma apply_second_Inr:
  assumes "apply_second s = Inr t"
  shows "list_all2 (\<lambda>(l, c) (k, v). k = l \<and> second_of c = Inr v) (items s) (items t)"
  using assms traverse_labelled[of second_of "items s"]
  by (auto simp: apply_second_def and_then_eq_Inr)

lemma cell_trans_rate_Inr:
  assumes "cell_trans_rate nb = Inr nb1"
  shows "\<exists>a t pv. smf110_filtered_tran_df nb = Some a \<and> a < length (heap nb)
           \<and> map fst (items t) = map fst (rows (heap nb ! a))
           \<and> trans_rate (setitem (heap nb ! a) ''DATETIME_SECOND'' t) = Inr pv
           \<and> nb1 = nb\<lparr>heap := (heap nb)[a := setitem (heap nb ! a) ''DATETIME_SECOND'' t],
                      trans_rate_per_region := Some pv,
                      cics_trans_df := Some (cics_trans_loop pv)\<rparr>"
proof -
  from assms obtain a df s t pv
    where d: "deref nb (smf110_filtered_tran_df nb) = Inr (a, df)"
      and s: "getitem df ''SMFMNRST'' = Inr s"
      and t: "apply_second s = Inr t"
      and pv: "trans_rate (heap (assign_column a ''DATETIME_SECOND'' t nb) ! a) = Inr pv"
      and nb1: "nb1 = (assign_column a ''DATETIME_SECOND'' t nb)
                  \<lparr>trans_rate_per_region := Some pv, cics_trans_df := Some (cics_trans_loop pv)\<rparr>"
    by (auto simp: cell_trans_rate_def and_then_eq_Inr Let_def)
  note a = deref_Inr[OF d]
  have "map fst (items t) = map fst (items s)"
    using list_all2_labels[OF apply_second_Inr[OF t]] .
  also have "\<dots> = map fst (rows df)"
    using getitem_Inr_items[OF s] by (simp add: comp_def case_prod_unfold)
  finally have labels: "map fst (items t) = map fst (rows (heap nb ! a))" using a by simp
  have h: "heap (assign_column a ''DATETIME_SECOND'' t nb) ! a = setitem (heap nb ! a) ''DATETIME_SECOND'' t"
    using a by (simp add: assign_column_def)
  from pv have pv': "trans_rate (setitem (heap nb ! a) ''DATETIME_SECOND'' t) = Inr pv"
    unfolding h .
  from nb1 have "nb1 = nb\<lparr>heap := (heap nb)[a := setitem (heap nb ! a) ''DATETIME_SECOND'' t],
                      trans_rate_per_region := Some pv,
                      cics_trans_df := Some (cics_trans_loop pv)\<rparr>"
    by (simp add: assign_column_def)
  with a labels pv' show ?thesis by blast
qed

text \<open>
  The effect of a cell of the analysis on the dataframes: none; or two new objects,
  rows of \<open>smf110_df\<close>, the second one bound to \<open>smf110_filtered_tran_df\<close>; or a new
  column \<open>DATETIME_SECOND\<close> in the object of \<open>smf110_filtered_tran_df\<close>.
\<close>

lemma analysis_cell_effect:
  assumes "c \<in> set analysis_cells" and "c nb = Inr nb1"
  shows "smf110_df nb1 = smf110_df nb \<and> orig_smf110_df nb1 = orig_smf110_df nb \<and>
    ((heap nb1 = heap nb \<and> smf110_filtered_tran_df nb1 = smf110_filtered_tran_df nb)
     \<or> (\<exists>a f1 f2. smf110_df nb = Some a \<and> a < length (heap nb) \<and> sub_frame f1 (heap nb ! a)
          \<and> sub_frame f2 f1 \<and> heap nb1 = heap nb @ [f1, f2]
          \<and> smf110_filtered_tran_df nb1 = Some (Suc (length (heap nb))))
     \<or> (\<exists>a t. smf110_filtered_tran_df nb = Some a \<and> a < length (heap nb)
          \<and> map fst (items t) = map fst (rows (heap nb ! a))
          \<and> heap nb1 = (heap nb)[a := setitem (heap nb ! a) ''DATETIME_SECOND'' t]
          \<and> smf110_filtered_tran_df nb1 = smf110_filtered_tran_df nb))"
proof -
  from assms(1) consider "c = cell_totals" | "c = cell_cics_run_per_region"
    | "c = cell_cpu_time_per_region" | "c = cell_filtered_tran" | "c = cell_cpu_time_per_trans"
    | "c = cell_trans_rate" | "c = cell_cpu_percentage"
    by (auto simp: analysis_cells_def)
  then show ?thesis
  proof cases
    case 1
    with assms(2) cell_totals_Inr show ?thesis by auto
  next
    case 2
    with assms(2) cell_cics_run_per_region_Inr[of nb nb1] show ?thesis by auto
  next
    case 3
    with assms(2) cell_cpu_time_per_region_Inr[of nb nb1] show ?thesis by auto
  next
    case 4
    with assms(2) cell_filtered_tran_Inr[of nb nb1] show ?thesis by auto
  next
    case 5
    with assms(2) cell_cpu_time_per_trans_Inr[of nb nb1] show ?thesis by auto
  next
    case 6
    with assms(2) cell_trans_rate_Inr[of nb nb1] show ?thesis by auto
  next
    case 7
    with assms(2) cell_cpu_percentage_Inr[of nb nb1] show ?thesis by auto
  qed
qed


section \<open>Column types and the copy of the data\<close>

lemma run_cells_invariant:
  assumes "run_cells cs nb = Inr nb1" and "I nb"
    and "\<And>c x y. c \<in> set cs \<Longrightarrow> c x = Inr y \<Longrightarrow> I x \<Longrightarrow> I y"
  shows "I nb1"
  using assms
proof (induction cs arbitrary: nb)
  case Nil
  then show ?case by simp
next
  case (Cons c cs)
  from Cons.prems(1) obtain x where x: "c nb = Inr x" and r: "run_cells cs x = Inr nb1"
    by (auto simp: and_then_eq_Inr)
  have x': "I x" using Cons.prems(3)[of c nb x] x Cons.prems(2) by simp
  show ?case
  proof (rule Cons.IH[OF r x'])
    fix c' u v
    assume "c' \<in> set cs" and "c' u = Inr v" and "I u"
    then show "I v" using Cons.prems(3)[of c' u v] by simp
  qed
qed

lemma cast_int_is_int: "cast_int p x = Inr v \<Longrightarrow> is_int v"
  by (cases x) (auto split: option.splits)

lemma cast_float_is_float: "cast_float p x = Inr v \<Longrightarrow> is_float v"
  by (cases x) (auto split: option.splits)


lemma map_of_retyped:
  "map_of (map (\<lambda>(n, u). if n = c then (n, t) else (n, u)) cols) x
     = (if x = c then map_option (\<lambda>u. t) (map_of cols x) else map_of cols x)"
  by (induction cols) auto

lemma map_of_set_dtype:
  "map_of cols c \<noteq> None \<Longrightarrow> map_of (set_dtype c t cols) x = (if x = c then Some t else map_of cols x)"
proof -
  assume a: "map_of cols c \<noteq> None"
  then have "c \<in> set (map fst cols)" by (simp add: map_of_eq_None_iff)
  then show ?thesis using a by (auto simp: set_dtype_def map_of_retyped)
qed

lemma map_of_set_dtype_other:
  "x \<noteq> c \<Longrightarrow> map_of (set_dtype c t cols) x = map_of cols x"
  by (auto simp: set_dtype_def map_of_retyped map_add_def split: option.splits)

lemma list_all2_all:
  "list_all2 R xs ys \<Longrightarrow> list_all P xs \<Longrightarrow> (\<And>x y. R x y \<Longrightarrow> P x \<Longrightarrow> Q y) \<Longrightarrow> list_all Q ys"
  by (induction xs ys rule: list_all2_induct) auto

lemma cast_of_labels: "cast_of cast c t df d \<Longrightarrow> map fst (rows d) = map fst (rows df)"
proof -
  assume "cast_of cast c t df d"
  then have "list_all2 (\<lambda>x y. fst y = fst x) (rows df) (rows d)"
    unfolding cast_of_def by (auto elim!: list_all2_mono)
  then show ?thesis by (induction rule: list_all2_induct) auto
qed

lemma cast_of_names: "cast_of cast c t df d \<Longrightarrow> column_names d = column_names df"
proof -
  assume a: "cast_of cast c t df d"
  then have "c \<in> set (map fst (columns df))"
    by (simp add: cast_of_def map_of_eq_None_iff)
  with a show ?thesis by (simp add: cast_of_def column_names_def set_dtype_names)
qed

lemma cast_of_column:
  assumes "cast_of cast c t df d" and "\<And>x v. cast x = Inr v \<Longrightarrow> P v"
  shows "column_holds d c t P"
proof -
  have "list_all2 (\<lambda>x y. P (snd y c)) (rows df) (rows d)"
    using assms unfolding cast_of_def by (auto elim!: list_all2_mono)
  then have "list_all (\<lambda>y. P (snd y c)) (rows d)"
    by (induction rule: list_all2_induct) auto
  then have "list_all (\<lambda>(l, r). P (r c)) (rows d)" by (simp add: case_prod_unfold)
  moreover have "map_of (columns d) c = Some t"
    using assms(1) by (simp add: cast_of_def map_of_set_dtype)
  ultimately show ?thesis by (simp add: column_holds_def)
qed

lemma cast_of_other:
  assumes "cast_of cast c t df d" and "x \<noteq> c" and "column_holds df x u P"
  shows "column_holds d x u P"
proof -
  have "list_all2 (\<lambda>a b. snd b x = snd a x) (rows df) (rows d)"
    using assms(1,2) unfolding cast_of_def
    by (auto elim!: list_all2_mono) (metis fun_upd_other)
  moreover have "list_all (\<lambda>a. P (snd a x)) (rows df)"
    using assms(3) by (simp add: column_holds_def case_prod_unfold)
  ultimately have "list_all (\<lambda>b. P (snd b x)) (rows d)"
    by (rule list_all2_all) simp
  then have "list_all (\<lambda>(l, r). P (r x)) (rows d)" by (simp add: case_prod_unfold)
  moreover have "map_of (columns d) x = Some u"
    using assms by (simp add: cast_of_def column_holds_def map_of_set_dtype_other)
  ultimately show ?thesis by (simp add: column_holds_def)
qed





text \<open>The dataframe after the three casts of the data cleaning.\<close>

lemma casts_numbers_typed:
  assumes "cast_of (cast_int p_int) ''TRANNUM'' Int64 d0 d1"
    and "cast_of (cast_float p_float) ''USRCPUT_TIMER'' Float64 d1 d2"
    and "cast_of (cast_int p_int) ''USRCPUT_COUNT'' Int64 d2 d3"
  shows "numbers_typed d3"
proof -
  have "column_holds d1 ''TRANNUM'' Int64 is_int"
    by (rule cast_of_column[OF assms(1)]) (rule cast_int_is_int)
  then have "column_holds d2 ''TRANNUM'' Int64 is_int"
    by (intro cast_of_other[OF assms(2)]) simp_all
  then have a: "column_holds d3 ''TRANNUM'' Int64 is_int"
    by (intro cast_of_other[OF assms(3)]) simp_all
  have "column_holds d2 ''USRCPUT_TIMER'' Float64 is_float"
    by (rule cast_of_column[OF assms(2)]) (rule cast_float_is_float)
  then have b: "column_holds d3 ''USRCPUT_TIMER'' Float64 is_float"
    by (intro cast_of_other[OF assms(3)]) simp_all
  have c: "column_holds d3 ''USRCPUT_COUNT'' Int64 is_int"
    by (rule cast_of_column[OF assms(3)]) (rule cast_int_is_int)
  from a b c show ?thesis by (simp add: numbers_typed_def)
qed


section \<open>Properties that every dataframe of the notebook keeps\<close>







section \<open>The column types after the data cleaning\<close>
















section \<open>The column types on the two paths\<close>










section \<open>The copy of the data\<close>

lemma cast_of_rows:
  assumes "cast_of cast c t df d"
  shows "list_all2 (\<lambda>(l, r) (k, q). k = l \<and> (\<forall>x. x \<noteq> c \<longrightarrow> q x = r x)) (rows df) (rows d)"
  using assms unfolding cast_of_def
  by (auto elim!: list_all2_mono) (metis fun_upd_other)

lemma list_all2_compose:
  assumes "list_all2 R xs ys" and "list_all2 S ys zs" and "\<And>x y z. R x y \<Longrightarrow> S y z \<Longrightarrow> T x z"
  shows "list_all2 T xs zs"
  using assms by (auto simp: list_all2_conv_all_nth)

lemma casts_rows:
  assumes "cast_of c1 ''TRANNUM'' t1 d0 d1" and "cast_of c2 ''USRCPUT_TIMER'' t2 d1 d2"
    and "cast_of c3 ''USRCPUT_COUNT'' t3 d2 d3"
  shows "list_all2 (\<lambda>(l, r) (k, q). k = l \<and>
            (\<forall>x. x \<notin> {''TRANNUM'', ''USRCPUT_TIMER'', ''USRCPUT_COUNT''} \<longrightarrow> q x = r x))
          (rows d0) (rows d3)"
proof -
  let ?R = "\<lambda>S. \<lambda>(l :: nat, r :: row) (k :: nat, q :: row). k = l \<and> (\<forall>x. x \<notin> S \<longrightarrow> q x = r x)"
  have r1: "list_all2 (?R {''TRANNUM''}) (rows d0) (rows d1)"
    using cast_of_rows[OF assms(1)] by simp
  have r2: "list_all2 (?R {''USRCPUT_TIMER''}) (rows d1) (rows d2)"
    using cast_of_rows[OF assms(2)] by simp
  have r3: "list_all2 (?R {''USRCPUT_COUNT''}) (rows d2) (rows d3)"
    using cast_of_rows[OF assms(3)] by simp
  have r12: "list_all2 (?R {''TRANNUM'', ''USRCPUT_TIMER''}) (rows d0) (rows d2)"
  proof (rule list_all2_compose[OF r1 r2])
    fix x y z :: "nat \<times> row"
    assume "?R {''TRANNUM''} x y" and "?R {''USRCPUT_TIMER''} y z"
    then show "?R {''TRANNUM'', ''USRCPUT_TIMER''} x z"
      by (cases x; cases y; cases z) simp
  qed
  show ?thesis
  proof (rule list_all2_compose[OF r12 r3])
    fix x y z :: "nat \<times> row"
    assume "?R {''TRANNUM'', ''USRCPUT_TIMER''} x y" and "?R {''USRCPUT_COUNT''} y z"
    then show "?R {''TRANNUM'', ''USRCPUT_TIMER'', ''USRCPUT_COUNT''} x z"
      by (cases x; cases y; cases z) simp
  qed
qed

lemma orig_step:
  assumes "c \<in> set analysis_cells" and "c nb = Inr nb1"
    and "orig_smf110_df nb = Some b \<and> b < length (heap nb) \<and> heap nb ! b = D
         \<and> smf110_filtered_tran_df nb \<noteq> Some b"
  shows "orig_smf110_df nb1 = Some b \<and> b < length (heap nb1) \<and> heap nb1 ! b = D
         \<and> smf110_filtered_tran_df nb1 \<noteq> Some b"
  using analysis_cell_effect[OF assms(1,2)] assms(3)
  by (auto simp: nth_append)

text \<open>The object of \<open>orig_smf110_df\<close>, from the data cleaning through the analysis.\<close>

lemma orig_kept:
  assumes "cell_data_cleaning e nb = Inr nb1"
    and "\<forall>a. smf110_filtered_tran_df nb = Some a \<longrightarrow> a < length (heap nb)"
    and "set cs \<subseteq> set analysis_cells"
    and "run_cells cs nb1 = Inr nb2"
  shows "\<exists>a. smf110_df nb = Some a \<and> a < length (heap nb) \<and> a \<noteq> length (heap nb)
     \<and> orig_smf110_df nb1 = Some (length (heap nb)) \<and> orig_smf110_df nb2 = Some (length (heap nb))
     \<and> length (heap nb) < length (heap nb2)
     \<and> heap nb2 ! length (heap nb) = heap nb1 ! length (heap nb)
     \<and> heap nb1 ! length (heap nb) = heap nb1 ! a
     \<and> column_names (heap nb1 ! length (heap nb)) = column_names (heap nb ! a)
     \<and> list_all2 (\<lambda>(l, r) (k, q). k = l \<and>
            (\<forall>x. x \<notin> {''TRANNUM'', ''USRCPUT_TIMER'', ''USRCPUT_COUNT''} \<longrightarrow> q x = r x))
          (rows (heap nb ! a)) (rows (heap nb1 ! length (heap nb)))
     \<and> numbers_typed (heap nb1 ! length (heap nb))"
proof -
  let ?b = "length (heap nb)"
  from cell_data_cleaning_Inr[OF assms(1)] obtain a d1 d2 d3 kept
    where a: "smf110_df nb = Some a" "a < length (heap nb)"
      and d1: "cast_of (cast_int (py_int e)) ''TRANNUM'' Int64 (heap nb ! a) d1"
      and d2: "cast_of (cast_float (py_float e)) ''USRCPUT_TIMER'' Float64 d1 d2"
      and d3: "cast_of (cast_int (py_int e)) ''USRCPUT_COUNT'' Int64 d2 d3"
      and nb1: "nb1 = nb\<lparr>heap := (heap nb)[a := d3] @ [d3, kept],
                orig_smf110_df := Some (length (heap nb)),
                smf110_df := Some (Suc (length (heap nb)))\<rparr>"
    by blast
  have o1: "orig_smf110_df nb1 = Some ?b" unfolding nb1 by simp
  have hb: "heap nb1 ! ?b = d3" unfolding nb1 by (simp add: nth_append)
  have ha: "heap nb1 ! a = d3" unfolding nb1 using a by (simp add: nth_append)
  have lt: "?b < length (heap nb1)" unfolding nb1 by simp
  have fl: "smf110_filtered_tran_df nb1 \<noteq> Some ?b"
    unfolding nb1 using assms(2) by auto
  let ?I = "\<lambda>x. orig_smf110_df x = Some ?b \<and> ?b < length (heap x) \<and> heap x ! ?b = d3
         \<and> smf110_filtered_tran_df x \<noteq> Some ?b"
  have "?I nb2"
  proof (rule run_cells_invariant[OF assms(4), where I = ?I])
    show "?I nb1" using o1 hb lt fl by simp
  next
    fix c x y assume "c \<in> set cs" and "c x = Inr y" and "?I x"
    then show "?I y" using orig_step[of c x y ?b d3] assms(3) by blast
  qed
  moreover have "column_names d3 = column_names (heap nb ! a)"
    using cast_of_names[OF d1] cast_of_names[OF d2] cast_of_names[OF d3] by simp
  moreover note casts_rows[OF d1 d2 d3] casts_numbers_typed[OF d1 d2 d3]
  ultimately show ?thesis using a o1 hb ha by auto
qed

text \<open>
  Claim C10. \<open>orig_smf110_df\<close> is bound by the data-cleaning cell to a new object, with
  the value that the dataframe has after the three casts and before the filter: every
  row of the input with its label, CICS region or not, unchanged outside the three cast
  columns, and with the cast types. No cell of the analysis, in any order, rebinds the
  variable or changes the object.
\<close>

theorem orig_frame_unchanged:
  assumes "cell_data_cleaning e nb = Inr nb1"
    and "\<forall>a. smf110_filtered_tran_df nb = Some a \<longrightarrow> a < length (heap nb)"
    and "set cs \<subseteq> set analysis_cells"
    and "run_cells cs nb1 = Inr nb2"
  shows "\<exists>a. smf110_df nb = Some a \<and> a < length (heap nb) \<and> a \<noteq> length (heap nb)
     \<and> orig_smf110_df nb1 = Some (length (heap nb)) \<and> orig_smf110_df nb2 = Some (length (heap nb))
     \<and> length (heap nb) < length (heap nb2)
     \<and> heap nb2 ! length (heap nb) = heap nb1 ! length (heap nb)
     \<and> heap nb1 ! length (heap nb) = heap nb1 ! a
     \<and> column_names (heap nb1 ! length (heap nb)) = column_names (heap nb ! a)
     \<and> list_all2 (\<lambda>(l, r) (k, q). k = l \<and>
            (\<forall>x. x \<notin> {''TRANNUM'', ''USRCPUT_TIMER'', ''USRCPUT_COUNT''} \<longrightarrow> q x = r x))
          (rows (heap nb ! a)) (rows (heap nb1 ! length (heap nb)))
     \<and> numbers_typed (heap nb1 ! length (heap nb))"
  by (rule orig_kept[OF assms])

lemma example_states:
  "isl (cell_json_extraction example_json_env new_notebook) = False
   \<and> isl (cell_data_cleaning example_json_env example_extracted) = False
   \<and> isl (run_cells analysis_cells example_cleaned) = False"
  by code_simp

lemma example_orig:
  "smf110_filtered_tran_df example_extracted = None
   \<and> orig_smf110_df example_analysed = Some 1
   \<and> map (\<lambda>(l, r). (l, r ''SMFMNSPN'', r ''USRCPUT_TIMER'')) (rows (heap example_analysed ! 1))
       = [(0, StrV (pystr_of ''CICS3AAB''), FloatV 2), (1, StrV (pystr_of ''BATCH''), FloatV (- 1))]"
  by code_simp

theorem orig_frame_unchanged_witness:
  "cell_data_cleaning example_json_env example_extracted = Inr example_cleaned
   \<and> smf110_filtered_tran_df example_extracted = None
   \<and> set analysis_cells \<subseteq> set analysis_cells
   \<and> run_cells analysis_cells example_cleaned = Inr example_analysed
   \<and> orig_smf110_df example_analysed = Some 1
   \<and> heap example_analysed ! 1 = heap example_cleaned ! 1
   \<and> map (\<lambda>(l, r). (l, r ''SMFMNSPN'', r ''USRCPUT_TIMER'')) (rows (heap example_analysed ! 1))
       = [(0, StrV (pystr_of ''CICS3AAB''), FloatV 2), (1, StrV (pystr_of ''BATCH''), FloatV (- 1))]"
proof -
  have c: "cell_data_cleaning example_json_env example_extracted = Inr example_cleaned"
    using example_states
    by (cases "cell_data_cleaning example_json_env example_extracted") (simp_all add: example_cleaned_def)
  have r: "run_cells analysis_cells example_cleaned = Inr example_analysed"
    using example_states
    by (cases "run_cells analysis_cells example_cleaned") (simp_all add: example_analysed_def)
  have f: "\<forall>a. smf110_filtered_tran_df example_extracted = Some a \<longrightarrow> a < length (heap example_extracted)"
    using example_orig by simp
  from orig_frame_unchanged[OF c f subset_refl r]
  have u: "orig_smf110_df example_analysed = Some (length (heap example_extracted))"
    and v: "heap example_analysed ! length (heap example_extracted)
              = heap example_cleaned ! length (heap example_extracted)"
    by auto
  from u example_orig have "length (heap example_extracted) = 1" by simp
  with v have "heap example_analysed ! 1 = heap example_cleaned ! 1" by simp
  with c r example_orig show ?thesis by simp
qed


section \<open>The CPU time of each region\<close>





section \<open>The CPU percentages\<close>















section \<open>The transaction rate loop\<close>
















end
